theory Spec2Isabelle
  imports Main
begin

section \<open>The officer reconciler: data model\<close>

text \<open>
  The development embeds \<^verbatim>\<open>initialise(parameters, requestor, alert)\<close> of the Companies
  House officer reconciler. JavaScript values that the code inspects for truthiness or
  hands through unchanged are values of \<open>jsval\<close>; numbers are the integers the search
  API reports (line numbers, HTTP statuses, result counts, birth years and months), and
  strings are lists of 8-bit characters, so a name is taken to be ASCII text.
\<close>

datatype jsval = Undefined | Null | Num int | Str string

datatype error = Error string | TypeError

text \<open>
  \<^verbatim>\<open>parameters.apiKey\<close> is either one value (\<open>Key Undefined\<close> when the parameter is
  absent) or an array of values.
\<close>

datatype apikey = Key jsval | Keys "jsval list"

record parameters =
  apiKey :: apikey
  individualNameField :: "string option"
  dateOfBirthField :: "string option"
  nonMiddleNameMatch :: bool
  preciseMatch :: bool

record entry =
  data :: "string \<rightharpoonup> string"
  line :: int

record alert =
  message :: string
  importance :: string

record auth =
  username :: jsval
  password :: string

record params =
  q :: string
  items_per_page :: int
  start_index :: "int option"

record passthrough =
  individualName :: string
  page :: int

record query =
  url :: string
  auth :: auth
  params :: params
  passthrough :: passthrough

record date_of_birth =
  year :: "int option"
  month :: "int option"
  day :: "int option"

record links =
  self :: "string option"

record individual =
  title :: "string option"
  links :: "links option"
  date_of_birth :: "date_of_birth option"
  address_snippet :: "string option"

record body =
  total_results :: int
  items :: "individual list"

record response =
  status :: int
  rdata :: body
  rurl :: string
  rauth :: auth
  rpassthrough :: passthrough

text \<open>The event handed to the \<^verbatim>\<open>messages\<close> callback: the query and the HTTP status.\<close>

record event =
  config :: query
  response_status :: int

text \<open>
  The mutable state of one \<^verbatim>\<open>initialise\<close> instance: the rotator's \<^verbatim>\<open>next\<close> cursor,
  which JavaScript's \<^verbatim>\<open>%\<close> turns into \<^verbatim>\<open>NaN\<close> on an empty key list, the alerts passed
  to \<^verbatim>\<open>alert\<close>, and the per-call messages the requestor surfaced.
\<close>

datatype cursor = Index nat | NaN

record state =
  nxt :: cursor
  alerts :: "alert list"
  diagnostics :: "string list"

section \<open>JavaScript primitives\<close>

fun digits :: "nat \<Rightarrow> string" where
  "digits n = (if n < 10 then [''0123456789'' ! n]
               else digits (n div 10) @ [''0123456789'' ! (n mod 10)])"

declare digits.simps [simp del]

definition toString :: "int \<Rightarrow> string" where
  "toString i = (if i < 0 then CHR ''-'' # digits (nat (- i)) else digits (nat i))"

text \<open>\<^verbatim>\<open>s.padStart(n, '0')\<close>.\<close>

definition padStart :: "nat \<Rightarrow> string \<Rightarrow> string" where
  "padStart n s = replicate (n - length s) CHR ''0'' @ s"

text \<open>\<^verbatim>\<open>s.slice(a, b)\<close> for indices \<open>0 \<le> a \<le> b\<close>.\<close>

definition slice :: "nat \<Rightarrow> nat \<Rightarrow> 'a list \<Rightarrow> 'a list" where
  "slice a b s = take (b - a) (drop a s)"

text \<open>\<^verbatim>\<open>s.split(c)\<close> for a one-character separator: never the empty array.\<close>

fun split :: "char \<Rightarrow> string \<Rightarrow> string list" where
  "split c [] = [[]]"
| "split c (x # xs) =
     (if x = c then [] # split c xs
      else (case split c xs of [] \<Rightarrow> [[x]] | w # ws \<Rightarrow> (x # w) # ws))"

text \<open>\<^verbatim>\<open>xs[i]\<close>: \<^verbatim>\<open>undefined\<close> out of range.\<close>

definition at :: "'a list \<Rightarrow> nat \<Rightarrow> 'a option" where
  "at xs i = (if i < length xs then Some (xs ! i) else None)"

text \<open>\<^verbatim>\<open>xs.pop()\<close> as an expression: the last element, \<^verbatim>\<open>undefined\<close> on an empty array.\<close>

definition pop :: "'a list \<Rightarrow> 'a option" where
  "pop xs = (case xs of [] \<Rightarrow> None | _ # _ \<Rightarrow> Some (last xs))"

definition lower :: "char \<Rightarrow> char" where
  "lower c =
     (case map_of (zip ''ABCDEFGHIJKLMNOPQRSTUVWXYZ'' ''abcdefghijklmnopqrstuvwxyz'') c of
        None \<Rightarrow> c
      | Some l \<Rightarrow> l)"

definition toLowerCase :: "string \<Rightarrow> string" where
  "toLowerCase s = map lower s"

text \<open>\<^verbatim>\<open>s.trim()\<close>, on the ASCII white space.\<close>

definition whitespace :: "char \<Rightarrow> bool" where
  "whitespace c = (c \<in> set [CHR '' '', CHR 0x09, CHR 0x0A, CHR 0x0B, CHR 0x0C, CHR 0x0D])"

definition trim :: "string \<Rightarrow> string" where
  "trim s = rev (dropWhile whitespace (rev (dropWhile whitespace s)))"

text \<open>Truthiness of the optional numbers and strings the code tests.\<close>

definition truthy_num :: "int option \<Rightarrow> bool" where
  "truthy_num x = (case x of None \<Rightarrow> False | Some n \<Rightarrow> n \<noteq> 0)"

definition truthy_str :: "string option \<Rightarrow> bool" where
  "truthy_str x = (case x of None \<Rightarrow> False | Some s \<Rightarrow> s \<noteq> [])"

text \<open>\<^verbatim>\<open>obj[key]\<close> with a key that may be \<^verbatim>\<open>undefined\<close>: the property named "undefined".\<close>

definition property :: "(string \<rightharpoonup> string) \<Rightarrow> string option \<Rightarrow> string option" where
  "property obj key = obj (case key of None \<Rightarrow> ''undefined'' | Some k \<Rightarrow> k)"

section \<open>The credential rotator\<close>

text \<open>\<^verbatim>\<open>const apiKeys = [parameters.apiKey].flat()\<close>\<close>

definition apiKeys :: "parameters \<Rightarrow> jsval list" where
  "apiKeys ps = (case apiKey ps of Key k \<Rightarrow> [k] | Keys ks \<Rightarrow> ks)"

text \<open>
  One call of \<^verbatim>\<open>apiKeysRotated()\<close>: the key under the cursor (\<^verbatim>\<open>undefined\<close> out of
  range or under \<^verbatim>\<open>NaN\<close>) and the cursor advanced by \<^verbatim>\<open>(next + 1) % apiKeys.length\<close>,
  which is \<^verbatim>\<open>NaN\<close> when the length is zero.
\<close>

fun apiKeysRotated :: "jsval list \<Rightarrow> cursor \<Rightarrow> jsval \<times> cursor" where
  "apiKeysRotated ks (Index i) =
     ((if i < length ks then ks ! i else Undefined),
      (if length ks = 0 then NaN else Index ((i + 1) mod length ks)))"
| "apiKeysRotated ks NaN = (Undefined, NaN)"

text \<open>\<open>n\<close> successive calls, with the keys they return in call order.\<close>

fun rotations :: "jsval list \<Rightarrow> nat \<Rightarrow> cursor \<Rightarrow> jsval list \<times> cursor" where
  "rotations ks 0 c = ([], c)"
| "rotations ks (Suc n) c =
     (let (k, c1) = apiKeysRotated ks c; (rest, c2) = rotations ks n c1 in (k # rest, c2))"

section \<open>The request executor\<close>

text \<open>A value inside a template literal.\<close>

fun template :: "jsval \<Rightarrow> string" where
  "template Undefined = ''undefined''"
| "template Null = ''null''"
| "template (Num n) = toString n"
| "template (Str s) = s"

text \<open>
  The \<^verbatim>\<open>messages\<close> callback given to the requestor: \<open>Inl\<close> is a thrown error,
  \<open>Inr (Some m)\<close> a returned message and \<open>Inr None\<close> the \<^verbatim>\<open>undefined\<close> of falling
  off the end.
\<close>

definition messages :: "event \<Rightarrow> error + string option" where
  "messages e =
     (let individual = individualName (passthrough (config e));
          page = page (passthrough (config e))
      in if response_status e = 429 then Inl (Error ''The rate limit has been reached'')
         else if response_status e = 401
           then Inl (Error (''API key '' @ template (username (auth (config e))) @ '' is invalid''))
         else if response_status e \<ge> 400
           then Inr (Some (''Received code '' @ toString (response_status e) @
                  '' for individual '' @ individual @ '' on page '' @ toString page))
         else Inr None)"

text \<open>\<^verbatim>\<open>limit: apiKeys.length * 2\<close>\<close>

definition limit :: "parameters \<Rightarrow> nat" where
  "limit ps = length (apiKeys ps) * 2"

text \<open>
  A request function, as \<^verbatim>\<open>requestor({limit, messages})\<close> returns one: from a query
  (or \<^verbatim>\<open>undefined\<close>) to the messages it surfaced and either a thrown error or the
  response (or \<^verbatim>\<open>undefined\<close>).
\<close>

type_synonym request = "query option \<Rightarrow> string list \<times> (error + response option)"

type_synonym network = "query \<Rightarrow> int \<times> body"

text \<open>
  Modelled from the spec: the requestor, the second argument of \<^verbatim>\<open>initialise\<close>, whose
  code is not part of the module. Following the Request Executor and the Pipeline
  Orchestrator of the specification: an absent query gives an absent response and no
  diagnostic; otherwise the remote call is made and classified by \<^verbatim>\<open>messages\<close>; a thrown
  error is raised to the caller, a returned message is surfaced as a per-call diagnostic
  and the response is absent, and any other status gives the decoded body with the
  query's url, auth and passthrough echoed onto the response. The remote service is a
  function from the query to a status and a decoded body.
\<close>

definition requestor :: "network \<Rightarrow> (event \<Rightarrow> error + string option) \<Rightarrow> request" where
  "requestor net msgs qo =
     (case qo of
        None \<Rightarrow> ([], Inr None)
      | Some qu \<Rightarrow>
          (case net qu of (st, b) \<Rightarrow>
             (case msgs \<lparr>config = qu, response_status = st\<rparr> of
                Inl err \<Rightarrow> ([], Inl err)
              | Inr (Some m) \<Rightarrow> ([m], Inr None)
              | Inr None \<Rightarrow>
                  ([], Inr (Some \<lparr>status = st, rdata = b, rurl = url qu, rauth = auth qu,
                                  rpassthrough = passthrough qu\<rparr>)))))"

section \<open>The locator\<close>

definition noIndividualName :: "entry \<Rightarrow> state \<Rightarrow> query option \<times> state" where
  "noIndividualName en st =
     (None, st\<lparr>alerts := alerts st @
        [\<lparr>message = ''No individual name found on line '' @ toString (line en),
          importance = ''error''\<rparr>]\<rparr>)"

definition locate :: "parameters \<Rightarrow> entry \<Rightarrow> state \<Rightarrow> query option \<times> state" where
  "locate ps en st =
     (case property (data en) (individualNameField ps) of
        None \<Rightarrow> noIndividualName en st
      | Some name \<Rightarrow>
          if name = [] then noIndividualName en st
          else (case apiKeysRotated (apiKeys ps) (nxt st) of (k, c) \<Rightarrow>
            (Some \<lparr>url = ''https://api.company-information.service.gov.uk/search/officers'',
                   auth = \<lparr>username = k, password = []\<rparr>,
                   params = \<lparr>q = trim name, items_per_page = 100, start_index = None\<rparr>,
                   passthrough = \<lparr>individualName = name, page = 1\<rparr>\<rparr>,
             st\<lparr>nxt := c\<rparr>)))"

section \<open>The paginator\<close>

text \<open>\<^verbatim>\<open>Math.ceil(total_results / 100)\<close>, on an integer count.\<close>

definition pageTotal :: "int \<Rightarrow> nat" where
  "pageTotal n = nat (- ((- n) div 100))"

text \<open>\<^verbatim>\<open>Array.from(Array(pageTotal).keys()).slice(1, 10)\<close>\<close>

definition pageNumbers :: "int \<Rightarrow> nat list" where
  "pageNumbers n = slice 1 10 [0 ..< pageTotal n]"

text \<open>
  The callback of \<^verbatim>\<open>pageNumbers.map\<close> up to its call of \<^verbatim>\<open>request\<close>: the queries are
  built in page order, each taking the next key of the rotator.
\<close>

fun pageQueries :: "jsval list \<Rightarrow> response \<Rightarrow> nat list \<Rightarrow> cursor \<Rightarrow> query list \<times> cursor" where
  "pageQueries ks r [] c = ([], c)"
| "pageQueries ks r (p # ps) c =
     (case apiKeysRotated ks c of (k, c1) \<Rightarrow>
        (case pageQueries ks r ps c1 of (qs, c2) \<Rightarrow>
           (\<lparr>url = rurl r,
             auth = \<lparr>username = k, password = []\<rparr>,
             params = \<lparr>q = trim (individualName (rpassthrough r)), items_per_page = 100,
                       start_index = Some (int p * 100)\<rparr>,
             passthrough = \<lparr>individualName = individualName (rpassthrough r),
                            page = int p + 1\<rparr>\<rparr> # qs, c2)))"

text \<open>
  \<^verbatim>\<open>Promise.all\<close> over calls that run concurrently. \<open>settled i\<close> is the time at which
  call \<open>i\<close> (in page order, from 0) settles; two calls never settle at once, and equal
  times are read in page order. When every call fulfils, the result is the array of
  their values in the order of the promises, whatever order they settle in. Otherwise
  \<^verbatim>\<open>Promise.all\<close> rejects with the error of the rejected call that settles first.
\<close>

fun firstRejection ::
  "(nat \<Rightarrow> nat) \<Rightarrow> nat \<Rightarrow> (string list \<times> (error + 'a)) list \<Rightarrow> (nat \<times> error) option" where
  "firstRejection settled i [] = None"
| "firstRejection settled i ((ms, r) # rest) =
     (case r of
        Inr x \<Rightarrow> firstRejection settled (Suc i) rest
      | Inl e \<Rightarrow>
          (case firstRejection settled (Suc i) rest of
             None \<Rightarrow> Some (settled i, e)
           | Some (t, e') \<Rightarrow> if settled i \<le> t then Some (settled i, e) else Some (t, e')))"

fun fulfilled :: "(string list \<times> (error + 'a)) list \<Rightarrow> 'a list" where
  "fulfilled [] = []"
| "fulfilled ((ms, r) # rest) =
     (case r of Inl e \<Rightarrow> fulfilled rest | Inr x \<Rightarrow> x # fulfilled rest)"

text \<open>
  The messages the calls surface, every call's kept (also of the calls that settle after
  a rejection), in the order in which the calls settle.
\<close>

definition surfaced :: "(nat \<Rightarrow> nat) \<Rightarrow> (string list \<times> 'b) list \<Rightarrow> string list" where
  "surfaced settled xs =
     concat (map snd (sort_key fst (zip (map settled [0 ..< length xs]) (map fst xs))))"

definition awaitAll ::
  "(nat \<Rightarrow> nat) \<Rightarrow> (string list \<times> (error + 'a)) list \<Rightarrow> string list \<times> (error + 'a list)" where
  "awaitAll settled xs =
     (surfaced settled xs,
      (case firstRejection settled 0 xs of
         Some (t, e) \<Rightarrow> Inl e
       | None \<Rightarrow> Inr (fulfilled xs)))"

definition paginate ::
  "parameters \<Rightarrow> request \<Rightarrow> (nat \<Rightarrow> nat) \<Rightarrow> response option \<Rightarrow> state \<Rightarrow>
     (error + response option list option) \<times> state" where
  "paginate ps request settled ro st =
     (case ro of
        None \<Rightarrow> (Inr None, st)
      | Some r \<Rightarrow>
          if total_results (rdata r) > 100 then
            (case pageQueries (apiKeys ps) r (pageNumbers (total_results (rdata r))) (nxt st) of
               (qs, c) \<Rightarrow>
                 (case awaitAll settled (map (\<lambda>qu. request (Some qu)) qs) of (ms, rs) \<Rightarrow>
                    (case rs of
                       Inl e \<Rightarrow> (Inl e, st\<lparr>nxt := c, diagnostics := diagnostics st @ ms\<rparr>)
                     | Inr pageResponses \<Rightarrow>
                         (Inr (Some (Some r # pageResponses)),
                          st\<lparr>nxt := c, diagnostics := diagnostics st @ ms\<rparr>))))
          else (Inr (Some [Some r]), st))"

section \<open>The matcher and parser\<close>

text \<open>
  \<^verbatim>\<open>byDateOfBirth\<close>: the filter is off when the parameter or the entry's value is falsy;
  a candidate with a falsy year or month is rejected; otherwise the year and the padded
  month are compared with \<^verbatim>\<open>slice(0, 4)\<close> and \<^verbatim>\<open>slice(5, 7)\<close> of the entry's value.
\<close>

definition byDateOfBirth :: "parameters \<Rightarrow> entry \<Rightarrow> individual \<Rightarrow> bool" where
  "byDateOfBirth ps en ind =
     (if truthy_str (dateOfBirthField ps) then
        (case property (data en) (dateOfBirthField ps) of
           None \<Rightarrow> True
         | Some v \<Rightarrow>
             if v = [] then True
             else (case date_of_birth ind of
                     None \<Rightarrow> False
                   | Some d \<Rightarrow>
                       (case year d of
                          None \<Rightarrow> False
                        | Some y \<Rightarrow>
                            if y = 0 then False
                            else (case month d of
                                    None \<Rightarrow> False
                                  | Some m \<Rightarrow>
                                      if m = 0 then False
                                      else toString y = slice 0 4 v
                                         \<and> padStart 2 (toString m) = slice 5 7 v))))
      else True)"

text \<open>
  \<^verbatim>\<open>replace(/^(mr|ms|mrs|miss|dr|sir)\.? /, '')\<close>: the alternatives are tried in order,
  each followed by an optional period and one space.
\<close>

definition honorifics :: "string list" where
  "honorifics = [''mr'', ''ms'', ''mrs'', ''miss'', ''dr'', ''sir'']"

fun stripHonorific :: "string list \<Rightarrow> string \<Rightarrow> string" where
  "stripHonorific [] s = s"
| "stripHonorific (h # hs) s =
     (if take (length h) s = h then
        (if take 2 (drop (length h) s) = ''. '' then drop (length h + 2) s
         else if take 1 (drop (length h) s) = '' '' then drop (length h + 1) s
         else stripHonorific hs s)
      else stripHonorific hs s)"

text \<open>\<^verbatim>\<open>replace(/[^a-z ]/g, '')\<close>\<close>

definition letters :: "string \<Rightarrow> string" where
  "letters s = filter (\<lambda>c. c \<in> set ''abcdefghijklmnopqrstuvwxyz '') s"

text \<open>\<^verbatim>\<open>normalised\<close>: \<^verbatim>\<open>undefined\<close> for an absent name, by the optional chaining.\<close>

definition normalised :: "string option \<Rightarrow> string option" where
  "normalised name =
     (case name of
        None \<Rightarrow> None
      | Some n \<Rightarrow> Some (stripHonorific honorifics (letters (toLowerCase n))))"

definition byPreciseMatch :: "parameters \<Rightarrow> entry \<Rightarrow> individual \<Rightarrow> bool" where
  "byPreciseMatch ps en ind =
     (if preciseMatch ps
      then normalised (title ind) = normalised (property (data en) (individualNameField ps))
      else True)"

text \<open>
  \<^verbatim>\<open>byNonMiddleNameMatch\<close>: \<^verbatim>\<open>split\<close> on an \<^verbatim>\<open>undefined\<close> name is a TypeError, the
  candidate's name first.
\<close>

definition byNonMiddleNameMatch :: "parameters \<Rightarrow> entry \<Rightarrow> individual \<Rightarrow> error + bool" where
  "byNonMiddleNameMatch ps en ind =
     (if nonMiddleNameMatch ps then
        (case normalised (title ind) of
           None \<Rightarrow> Inl TypeError
         | Some resultIndividualName \<Rightarrow>
             (case normalised (property (data en) (individualNameField ps)) of
                None \<Rightarrow> Inl TypeError
              | Some entryIndividualName \<Rightarrow>
                  Inr (at (split CHR '' '' resultIndividualName) 0
                         = at (split CHR '' '' entryIndividualName) 0
                     \<and> pop (split CHR '' '' resultIndividualName)
                         = pop (split CHR '' '' entryIndividualName))))
      else Inr True)"

text \<open>\<^verbatim>\<open>filter\<close> and \<^verbatim>\<open>map\<close> with a callback that may throw.\<close>

fun filterE :: "('a \<Rightarrow> error + bool) \<Rightarrow> 'a list \<Rightarrow> error + 'a list" where
  "filterE p [] = Inr []"
| "filterE p (x # xs) =
     (case p x of
        Inl e \<Rightarrow> Inl e
      | Inr b \<Rightarrow>
          (case filterE p xs of
             Inl e \<Rightarrow> Inl e
           | Inr ys \<Rightarrow> Inr (if b then x # ys else ys)))"

fun mapE :: "('a \<Rightarrow> error + 'b) \<Rightarrow> 'a list \<Rightarrow> error + 'b list" where
  "mapE f [] = Inr []"
| "mapE f (x # xs) =
     (case f x of
        Inl e \<Rightarrow> Inl e
      | Inr y \<Rightarrow> (case mapE f xs of Inl e \<Rightarrow> Inl e | Inr ys \<Rightarrow> Inr (y # ys)))"

text \<open>\<^verbatim>\<open>xs.join(sep)\<close>\<close>

fun join :: "string \<Rightarrow> string list \<Rightarrow> string" where
  "join sep [] = []"
| "join sep [x] = x"
| "join sep (x # y # ys) = x @ sep @ join sep (y # ys)"

definition opt :: "string option \<Rightarrow> jsval" where
  "opt x = (case x of None \<Rightarrow> Undefined | Some s \<Rightarrow> Str s)"

text \<open>
  \<^verbatim>\<open>[year, month, day].filter(x => x).join('-') || null\<close>, each component read through
  \<^verbatim>\<open>date_of_birth?.\<close>
\<close>

definition component :: "individual \<Rightarrow> (date_of_birth \<Rightarrow> int option) \<Rightarrow> int option" where
  "component ind field = (case date_of_birth ind of None \<Rightarrow> None | Some d \<Rightarrow> field d)"

definition officerDateOfBirth :: "individual \<Rightarrow> jsval" where
  "officerDateOfBirth ind =
     (let joined = join ''-'' (map toString (concat (map (\<lambda>x. case x of None \<Rightarrow> [] | Some n \<Rightarrow> if n = 0 then [] else [n])
                     [component ind year, component ind month, component ind day])))
      in if joined = [] then Null else Str joined)"

text \<open>An output row is the object literal \<^verbatim>\<open>fields\<close>: its keys in order, with their values.\<close>

type_synonym row = "(string \<times> jsval) list"

definition fields :: "individual \<Rightarrow> error + row" where
  "fields ind =
     (case links ind of
        None \<Rightarrow> Inl TypeError
      | Some l \<Rightarrow>
          (case self l of
             None \<Rightarrow> Inl TypeError
           | Some s \<Rightarrow>
               Inr [(''officerID'', opt (at (split CHR ''/'' s) 2)),
                    (''officerName'', opt (title ind)),
                    (''officerDateOfBirth'', officerDateOfBirth ind),
                    (''officerAddress'', opt (address_snippet ind))]))"

definition parse :: "parameters \<Rightarrow> response option \<Rightarrow> entry \<Rightarrow> error + row list option" where
  "parse ps ro en =
     (case ro of
        None \<Rightarrow> Inr None
      | Some r \<Rightarrow>
          (case filterE (byNonMiddleNameMatch ps en)
                  (filter (byPreciseMatch ps en) (filter (byDateOfBirth ps en) (items (rdata r)))) of
             Inl e \<Rightarrow> Inl e
           | Inr individuals \<Rightarrow>
               (case mapE fields individuals of
                  Inl e \<Rightarrow> Inl e
                | Inr rows \<Rightarrow> Inr (Some rows))))"

section \<open>The pipeline\<close>

text \<open>
  \<^verbatim>\<open>flatMap\<close>: an array returned by the callback is spliced in, and the \<^verbatim>\<open>undefined\<close>
  that \<^verbatim>\<open>parse\<close> returns for an absent response stays as one element.
\<close>

fun flatMap :: "('a \<Rightarrow> error + 'b list option) \<Rightarrow> 'a list \<Rightarrow> error + 'b option list" where
  "flatMap f [] = Inr []"
| "flatMap f (x # xs) =
     (case f x of
        Inl e \<Rightarrow> Inl e
      | Inr y \<Rightarrow>
          (case flatMap f xs of
             Inl e \<Rightarrow> Inl e
           | Inr ys \<Rightarrow> Inr ((case y of None \<Rightarrow> [None] | Some rows \<Rightarrow> map Some rows) @ ys)))"

definition run ::
  "parameters \<Rightarrow> request \<Rightarrow> (nat \<Rightarrow> nat) \<Rightarrow> entry \<Rightarrow> state \<Rightarrow>
     (error + row option list option) \<times> state" where
  "run ps request settled input st =
     (case locate ps input st of (dataLocated, st1) \<Rightarrow>
        (case request dataLocated of (ms, requested) \<Rightarrow>
           (case requested of
              Inl e \<Rightarrow> (Inl e, st1\<lparr>diagnostics := diagnostics st1 @ ms\<rparr>)
            | Inr dataLocatedRequested \<Rightarrow>
                (case paginate ps request settled dataLocatedRequested
                        (st1\<lparr>diagnostics := diagnostics st1 @ ms\<rparr>) of
                   (Inl e, st2) \<Rightarrow> (Inl e, st2)
                 | (Inr None, st2) \<Rightarrow> (Inr None, st2)
                 | (Inr (Some dataLocatedPaginated), st2) \<Rightarrow>
                     (case flatMap (\<lambda>response. parse ps response input) dataLocatedPaginated of
                        Inl e \<Rightarrow> (Inl e, st2)
                      | Inr dataParsed \<Rightarrow> (Inr (Some dataParsed), st2))))))"

text \<open>\<^verbatim>\<open>details.columns\<close>: the declared output schema.\<close>

definition columns :: "string list" where
  "columns = [''officerID'', ''officerName'', ''officerDateOfBirth'', ''officerAddress'']"

text \<open>A fresh instance: the cursor at 0, nothing alerted.\<close>

definition initial :: state where
  "initial = \<lparr>nxt = Index 0, alerts = [], diagnostics = []\<rparr>"

section \<open>Properties of the credential rotator\<close>

lemma upt_Suc_shift: "[0..<Suc n] = 0 # map Suc [0..<n]"
proof -
  have "[0..<Suc n] = 0 # [Suc 0..<Suc n]"
    by (rule upt_conv_Cons) simp
  then show ?thesis
    by (simp only: map_Suc_upt)
qed

lemma rotations_Index:
  "i < length ks \<Longrightarrow>
   rotations ks n (Index i) =
     (map (\<lambda>j. ks ! ((i + j) mod length ks)) [0..<n], Index ((i + n) mod length ks))"
proof (induction n arbitrary: i)
  case 0
  then show ?case by simp
next
  case (Suc n)
  let ?l = "length ks"
  have pos: "0 < ?l" using Suc.prems by auto
  have lt: "(i + 1) mod ?l < ?l" using pos by simp
  have step: "apiKeysRotated ks (Index i) = (ks ! i, Index ((i + 1) mod ?l))"
    using Suc.prems by auto
  have shift: "((i + 1) mod ?l + j) mod ?l = (i + Suc j) mod ?l" for j
    by (simp add: mod_add_left_eq)
  have hd: "(i + 0) mod ?l = i"
    using Suc.prems by simp
  have "map (\<lambda>j. ks ! ((i + j) mod ?l)) [0..<Suc n] =
        ks ! i # map (\<lambda>j. ks ! ((i + Suc j) mod ?l)) [0..<n]"
    by (simp only: upt_Suc_shift list.map map_map o_def hd)
  moreover have "rotations ks n (Index ((i + 1) mod ?l)) =
      (map (\<lambda>j. ks ! ((i + Suc j) mod ?l)) [0..<n], Index ((i + Suc n) mod ?l))"
    unfolding Suc.IH [OF lt] shift ..
  ultimately show ?case
    by (simp only: rotations.simps step Let_def prod.case)
qed

text \<open>
  Claim C6. On a non-empty key list, successive calls of the rotator, starting from a
  fresh cursor, return the keys in round-robin order: call number \<open>i\<close> (from 0) returns
  the key at index \<open>i mod length ks\<close>, always an element of the list. Three keys called
  seven times give a, b, c, a, b, c, a, and a single key is returned by every call.
\<close>

theorem rotator_round_robin:
  "ks \<noteq> [] \<Longrightarrow>
     fst (rotations ks n (Index 0)) = map (\<lambda>i. ks ! (i mod length ks)) [0..<n]
   \<and> set (fst (rotations ks n (Index 0))) \<subseteq> set ks
   \<and> fst (rotations [a, b, c] 7 (Index 0)) = [a, b, c, a, b, c, a]
   \<and> fst (rotations [k] n (Index 0)) = replicate n k"
proof -
  assume ne: "ks \<noteq> []"
  then have pos: "0 < length ks" by simp
  have order: "fst (rotations ks n (Index 0)) = map (\<lambda>i. ks ! (i mod length ks)) [0..<n]"
    using rotations_Index [OF pos, of n] by simp
  have inside: "set (fst (rotations ks n (Index 0))) \<subseteq> set ks"
    unfolding order using pos by auto
  have seven: "fst (rotations [a, b, c] 7 (Index 0)) = [a, b, c, a, b, c, a]"
    by code_simp
  have "fst (rotations [k] n (Index 0)) = map (\<lambda>j. k) [0..<n]"
    using rotations_Index [of 0 "[k]" n] by simp
  then have one: "fst (rotations [k] n (Index 0)) = replicate n k"
    by (simp add: map_replicate_trivial)
  from order inside seven one show ?thesis by simp
qed

text \<open>The round-robin theorem at the keys A, B, C and seven calls.\<close>

theorem rotator_round_robin_witness:
  "[Str ''A'', Str ''B'', Str ''C''] \<noteq> []
   \<and> fst (rotations [Str ''A'', Str ''B'', Str ''C''] 7 (Index 0))
       = [Str ''A'', Str ''B'', Str ''C'', Str ''A'', Str ''B'', Str ''C'', Str ''A'']"
proof -
  have ne: "[Str ''A'', Str ''B'', Str ''C''] \<noteq> []" by simp
  have "[0..<7] = [0, 1, 2, 3, 4, 5, 6::nat]" by (simp add: upt_rec)
  with rotator_round_robin [OF ne, of 7] show ?thesis by simp
qed

text \<open>
  Claim C10 as stated fails for an empty array of keys: \<^verbatim>\<open>[[]].flat()\<close> is the empty
  list, the rotator returns \<^verbatim>\<open>undefined\<close> and its cursor becomes \<^verbatim>\<open>NaN\<close>.
\<close>

theorem apiKeys_empty_array_counterexample:
  "apiKeys \<lparr>apiKey = Keys [], individualNameField = Some ''name'', dateOfBirthField = None,
             nonMiddleNameMatch = False, preciseMatch = False\<rparr> = []
   \<and> apiKeysRotated (apiKeys \<lparr>apiKey = Keys [], individualNameField = Some ''name'',
             dateOfBirthField = None, nonMiddleNameMatch = False, preciseMatch = False\<rparr>)
        (Index 0) = (Undefined, NaN)"
  by (simp add: apiKeys_def)

text \<open>
  Claim C10, amended. Unless \<^verbatim>\<open>parameters.apiKey\<close> is an empty array, the key list is
  non-empty: a scalar key (also an absent one, \<^verbatim>\<open>undefined\<close>) gives a one-element list and
  a non-empty array gives its elements. Then after any number of calls the cursor is an
  index below the length of the list, so the modulus is never zero, and the next call
  returns the element of the list at that index.
\<close>

theorem apiKeys_rotation_safe:
  "apiKey ps \<noteq> Keys [] \<Longrightarrow>
     apiKeys ps \<noteq> []
   \<and> apiKeys (ps\<lparr>apiKey := Key k\<rparr>) = [k]
   \<and> apiKeys (ps\<lparr>apiKey := Keys (x # xs)\<rparr>) = x # xs
   \<and> snd (rotations (apiKeys ps) n (Index 0)) = Index (n mod length (apiKeys ps))
   \<and> n mod length (apiKeys ps) < length (apiKeys ps)
   \<and> fst (apiKeysRotated (apiKeys ps) (snd (rotations (apiKeys ps) n (Index 0))))
       = apiKeys ps ! (n mod length (apiKeys ps))"
proof -
  assume given: "apiKey ps \<noteq> Keys []"
  have ne: "apiKeys ps \<noteq> []"
    using given by (cases "apiKey ps") (simp_all add: apiKeys_def)
  then have pos: "0 < length (apiKeys ps)" by simp
  have scalar: "apiKeys (ps\<lparr>apiKey := Key k\<rparr>) = [k]"
    and array: "apiKeys (ps\<lparr>apiKey := Keys (x # xs)\<rparr>) = x # xs"
    by (simp_all add: apiKeys_def)
  have cur: "snd (rotations (apiKeys ps) n (Index 0)) = Index (n mod length (apiKeys ps))"
    using rotations_Index [OF pos, of n] by simp
  have bound: "n mod length (apiKeys ps) < length (apiKeys ps)"
    using pos by simp
  have key: "fst (apiKeysRotated (apiKeys ps) (snd (rotations (apiKeys ps) n (Index 0))))
       = apiKeys ps ! (n mod length (apiKeys ps))"
    unfolding cur using bound by simp
  from ne scalar array cur bound key show ?thesis by simp
qed

text \<open>The amended theorem at an absent key: the list is \<^verbatim>\<open>[undefined]\<close>.\<close>

theorem apiKeys_rotation_safe_witness:
  "apiKey \<lparr>apiKey = Key Undefined, individualNameField = Some ''name'', dateOfBirthField = None,
            nonMiddleNameMatch = False, preciseMatch = False\<rparr> \<noteq> Keys []
   \<and> apiKeys \<lparr>apiKey = Key Undefined, individualNameField = Some ''name'',
            dateOfBirthField = None, nonMiddleNameMatch = False, preciseMatch = False\<rparr>
       = [Undefined]"
proof -
  let ?ps = "\<lparr>apiKey = Key Undefined, individualNameField = Some ''name'', dateOfBirthField = None,
            nonMiddleNameMatch = False, preciseMatch = False\<rparr>"
  have h: "apiKey ?ps \<noteq> Keys []" by simp
  from apiKeys_rotation_safe [OF h, of Undefined Undefined "[]" 0] show ?thesis by simp
qed

section \<open>Properties of the date-of-birth filter\<close>

text \<open>
  Claim C1 as stated fails: with a birth-date column configured and filled in, a
  candidate that lists no date of birth is rejected by \<^verbatim>\<open>byDateOfBirth\<close>, as the
  comment on that line of the source says.
\<close>

theorem byDateOfBirth_missing_counterexample:
  "\<not> byDateOfBirth
       \<lparr>apiKey = Key (Str ''key''), individualNameField = Some ''name'',
        dateOfBirthField = Some ''dob'', nonMiddleNameMatch = False, preciseMatch = False\<rparr>
       \<lparr>data = [''name'' \<mapsto> ''John Smith'', ''dob'' \<mapsto> ''1980-05-17''], line = 3\<rparr>
       \<lparr>title = Some ''John Smith'', links = Some \<lparr>self = Some ''/officers/abc123''\<rparr>,
        date_of_birth = None, address_snippet = Some ''1 Road''\<rparr>"
  by (simp add: byDateOfBirth_def truthy_str_def property_def)

text \<open>
  Claim C1, amended. When the birth-date column is configured and the entry's value
  \<open>v\<close> is not blank, a candidate whose year or month is missing (or zero) is rejected,
  and a candidate with both passes exactly when the year's decimal string is
  \<^verbatim>\<open>v.slice(0, 4)\<close> and the month, padded to two digits, is \<^verbatim>\<open>v.slice(5, 7)\<close>. When the
  column is not configured or the entry's value is blank, every candidate passes.
\<close>

theorem byDateOfBirth_filter:
  "(truthy_str (dateOfBirthField ps) \<and> property (data en) (dateOfBirthField ps) = Some v \<and> v \<noteq> []
      \<and> \<not> (truthy_num (component ind year) \<and> truthy_num (component ind month))
      \<longrightarrow> \<not> byDateOfBirth ps en ind)
   \<and> (truthy_str (dateOfBirthField ps) \<and> property (data en) (dateOfBirthField ps) = Some v \<and> v \<noteq> []
      \<and> component ind year = Some y \<and> y \<noteq> 0 \<and> component ind month = Some m \<and> m \<noteq> 0
      \<longrightarrow> byDateOfBirth ps en ind
            = (toString y = slice 0 4 v \<and> padStart 2 (toString m) = slice 5 7 v))
   \<and> (\<not> (truthy_str (dateOfBirthField ps) \<and> truthy_str (property (data en) (dateOfBirthField ps)))
      \<longrightarrow> byDateOfBirth ps en ind)"
  by (auto simp: byDateOfBirth_def component_def truthy_str_def truthy_num_def
           split: option.splits)

text \<open>
  The amended theorem at the entry value 1980-05-17: a candidate born in May 1980 passes,
  one born in June 1980 does not, and with no column configured a candidate without a
  date of birth passes.
\<close>

theorem byDateOfBirth_filter_witness:
  "byDateOfBirth
       \<lparr>apiKey = Key (Str ''key''), individualNameField = Some ''name'',
        dateOfBirthField = Some ''dob'', nonMiddleNameMatch = False, preciseMatch = False\<rparr>
       \<lparr>data = [''name'' \<mapsto> ''John Smith'', ''dob'' \<mapsto> ''1980-05-17''], line = 3\<rparr>
       \<lparr>title = Some ''John Smith'', links = Some \<lparr>self = Some ''/officers/abc123''\<rparr>,
        date_of_birth = Some \<lparr>year = Some 1980, month = Some 5, day = None\<rparr>,
        address_snippet = Some ''1 Road''\<rparr>
   \<and> \<not> byDateOfBirth
       \<lparr>apiKey = Key (Str ''key''), individualNameField = Some ''name'',
        dateOfBirthField = Some ''dob'', nonMiddleNameMatch = False, preciseMatch = False\<rparr>
       \<lparr>data = [''name'' \<mapsto> ''John Smith'', ''dob'' \<mapsto> ''1980-05-17''], line = 3\<rparr>
       \<lparr>title = Some ''John Smith'', links = Some \<lparr>self = Some ''/officers/abc123''\<rparr>,
        date_of_birth = Some \<lparr>year = Some 1980, month = Some 6, day = None\<rparr>,
        address_snippet = Some ''1 Road''\<rparr>
   \<and> byDateOfBirth
       \<lparr>apiKey = Key (Str ''key''), individualNameField = Some ''name'',
        dateOfBirthField = None, nonMiddleNameMatch = False, preciseMatch = False\<rparr>
       \<lparr>data = [''name'' \<mapsto> ''John Smith'', ''dob'' \<mapsto> ''1980-05-17''], line = 3\<rparr>
       \<lparr>title = Some ''John Smith'', links = Some \<lparr>self = Some ''/officers/abc123''\<rparr>,
        date_of_birth = None, address_snippet = Some ''1 Road''\<rparr>"
proof -
  let ?on = "\<lparr>apiKey = Key (Str ''key''), individualNameField = Some ''name'',
        dateOfBirthField = Some ''dob'', nonMiddleNameMatch = False, preciseMatch = False\<rparr>"
  let ?off = "\<lparr>apiKey = Key (Str ''key''), individualNameField = Some ''name'',
        dateOfBirthField = None, nonMiddleNameMatch = False, preciseMatch = False\<rparr>"
  let ?en = "\<lparr>data = [''name'' \<mapsto> ''John Smith'', ''dob'' \<mapsto> ''1980-05-17''], line = 3\<rparr>"
  let ?may = "\<lparr>title = Some ''John Smith'', links = Some \<lparr>self = Some ''/officers/abc123''\<rparr>,
        date_of_birth = Some \<lparr>year = Some 1980, month = Some 5, day = None\<rparr>,
        address_snippet = Some ''1 Road''\<rparr>"
  let ?june = "\<lparr>title = Some ''John Smith'', links = Some \<lparr>self = Some ''/officers/abc123''\<rparr>,
        date_of_birth = Some \<lparr>year = Some 1980, month = Some 6, day = None\<rparr>,
        address_snippet = Some ''1 Road''\<rparr>"
  let ?none = "\<lparr>title = Some ''John Smith'', links = Some \<lparr>self = Some ''/officers/abc123''\<rparr>,
        date_of_birth = None, address_snippet = Some ''1 Road''\<rparr>"
  have y: "toString 1980 = ''1980''" and m5: "toString 5 = ''5''" and m6: "toString 6 = ''6''"
    by (simp_all add: toString_def digits.simps)
  have a: "byDateOfBirth ?on ?en ?may"
    using byDateOfBirth_filter [of ?on ?en "''1980-05-17''" ?may 1980 5]
    by (simp add: truthy_str_def property_def component_def y m5 padStart_def slice_def)
  have b: "\<not> byDateOfBirth ?on ?en ?june"
    using byDateOfBirth_filter [of ?on ?en "''1980-05-17''" ?june 1980 6]
    by (simp add: truthy_str_def property_def component_def y m6 padStart_def slice_def)
  have c: "byDateOfBirth ?off ?en ?none"
    using byDateOfBirth_filter [of ?off ?en "''1980-05-17''" ?none 1980 5]
    by (simp add: truthy_str_def)
  from a b c show ?thesis by simp
qed

section \<open>Properties of the name filters\<close>

lemma normalised_dr_jane: "normalised (Some ''Dr. Jane O'Brien'') = Some ''jane obrien''"
  by (simp add: normalised_def honorifics_def letters_def toLowerCase_def lower_def)

lemma normalised_jane: "normalised (Some ''jane obrien'') = Some ''jane obrien''"
  by (simp add: normalised_def honorifics_def letters_def toLowerCase_def lower_def)

lemma normalised_jane_marie: "normalised (Some ''Jane Marie O'Brien'') = Some ''jane marie obrien''"
  by (simp add: normalised_def honorifics_def letters_def toLowerCase_def lower_def)

lemma normalised_jane_obrien: "normalised (Some ''Jane O'Brien'') = Some ''jane obrien''"
  by (simp add: normalised_def honorifics_def letters_def toLowerCase_def lower_def)

lemma split_jane_marie: "split CHR '' '' ''jane marie obrien'' = [''jane'', ''marie'', ''obrien'']"
  by simp

lemma split_jane: "split CHR '' '' ''jane obrien'' = [''jane'', ''obrien'']"
  by simp

text \<open>
  Claim C7. Normalisation (lower case, only the characters a to z and the space kept, one
  leading honorific with its space removed) maps "Dr. Jane O'Brien" and "jane obrien" to
  the same string, so the exact-name filter accepts a candidate named "Dr. Jane O'Brien"
  for the entry name "jane obrien"; the first/last-name filter accepts the candidate
  "Jane Marie O'Brien" for the entry name "Jane O'Brien"; and each filter passes every
  candidate when its parameter is not set.
\<close>

theorem name_filters:
  "normalised (Some ''Dr. Jane O'Brien'') = normalised (Some ''jane obrien'')
   \<and> normalised (Some ''Dr. Jane O'Brien'') = Some ''jane obrien''
   \<and> (title ind = Some ''Dr. Jane O'Brien''
        \<and> property (data en) (individualNameField ps) = Some ''jane obrien''
        \<longrightarrow> byPreciseMatch ps en ind)
   \<and> (title ind = Some ''Jane Marie O'Brien''
        \<and> property (data en) (individualNameField ps) = Some ''Jane O'Brien''
        \<longrightarrow> byNonMiddleNameMatch ps en ind = Inr True)
   \<and> (\<not> preciseMatch ps \<longrightarrow> byPreciseMatch ps en ind)
   \<and> (\<not> nonMiddleNameMatch ps \<longrightarrow> byNonMiddleNameMatch ps en ind = Inr True)"
proof -
  have same: "normalised (Some ''Dr. Jane O'Brien'') = normalised (Some ''jane obrien'')"
    by (simp only: normalised_dr_jane normalised_jane)
  have precise: "byPreciseMatch ps en ind"
    if "title ind = Some ''Dr. Jane O'Brien''"
      and "property (data en) (individualNameField ps) = Some ''jane obrien''"
    unfolding byPreciseMatch_def using that by (simp add: normalised_dr_jane normalised_jane)
  have firstLast: "byNonMiddleNameMatch ps en ind = Inr True"
    if "title ind = Some ''Jane Marie O'Brien''"
      and "property (data en) (individualNameField ps) = Some ''Jane O'Brien''"
    unfolding byNonMiddleNameMatch_def using that
    by (simp add: normalised_jane_marie normalised_jane_obrien at_def pop_def
          del: split.simps add: split_jane_marie split_jane)
  have offPrecise: "byPreciseMatch ps en ind" if "\<not> preciseMatch ps"
    using that by (simp add: byPreciseMatch_def)
  have offFirstLast: "byNonMiddleNameMatch ps en ind = Inr True" if "\<not> nonMiddleNameMatch ps"
    using that by (simp add: byNonMiddleNameMatch_def)
  from same normalised_dr_jane precise firstLast offPrecise offFirstLast
  show ?thesis by blast
qed


text \<open>
  The name-filter theorem with both filters switched on, at the pairs of the claim, and
  with both switched off, at a candidate of another name.
\<close>

theorem name_filters_witness:
  "byPreciseMatch
       \<lparr>apiKey = Key (Str ''key''), individualNameField = Some ''name'',
        dateOfBirthField = None, nonMiddleNameMatch = True, preciseMatch = True\<rparr>
       \<lparr>data = [''name'' \<mapsto> ''jane obrien''], line = 2\<rparr>
       \<lparr>title = Some ''Dr. Jane O'Brien'', links = Some \<lparr>self = Some ''/officers/x1''\<rparr>,
        date_of_birth = None, address_snippet = None\<rparr>
   \<and> byNonMiddleNameMatch
       \<lparr>apiKey = Key (Str ''key''), individualNameField = Some ''name'',
        dateOfBirthField = None, nonMiddleNameMatch = True, preciseMatch = True\<rparr>
       \<lparr>data = [''name'' \<mapsto> ''Jane O'Brien''], line = 2\<rparr>
       \<lparr>title = Some ''Jane Marie O'Brien'', links = Some \<lparr>self = Some ''/officers/x1''\<rparr>,
        date_of_birth = None, address_snippet = None\<rparr> = Inr True
   \<and> byPreciseMatch
       \<lparr>apiKey = Key (Str ''key''), individualNameField = Some ''name'',
        dateOfBirthField = None, nonMiddleNameMatch = False, preciseMatch = False\<rparr>
       \<lparr>data = [''name'' \<mapsto> ''Jane O'Brien''], line = 2\<rparr>
       \<lparr>title = Some ''John Smith'', links = Some \<lparr>self = Some ''/officers/x1''\<rparr>,
        date_of_birth = None, address_snippet = None\<rparr>
   \<and> byNonMiddleNameMatch
       \<lparr>apiKey = Key (Str ''key''), individualNameField = Some ''name'',
        dateOfBirthField = None, nonMiddleNameMatch = False, preciseMatch = False\<rparr>
       \<lparr>data = [''name'' \<mapsto> ''Jane O'Brien''], line = 2\<rparr>
       \<lparr>title = Some ''John Smith'', links = Some \<lparr>self = Some ''/officers/x1''\<rparr>,
        date_of_birth = None, address_snippet = None\<rparr> = Inr True"
proof -
  let ?on = "\<lparr>apiKey = Key (Str ''key''), individualNameField = Some ''name'',
        dateOfBirthField = None, nonMiddleNameMatch = True, preciseMatch = True\<rparr>"
  let ?off = "\<lparr>apiKey = Key (Str ''key''), individualNameField = Some ''name'',
        dateOfBirthField = None, nonMiddleNameMatch = False, preciseMatch = False\<rparr>"
  let ?plain = "\<lparr>data = [''name'' \<mapsto> ''jane obrien''], line = 2\<rparr>"
  let ?jane = "\<lparr>data = [''name'' \<mapsto> ''Jane O'Brien''], line = 2\<rparr>"
  let ?dr = "\<lparr>title = Some ''Dr. Jane O'Brien'', links = Some \<lparr>self = Some ''/officers/x1''\<rparr>,
        date_of_birth = None, address_snippet = None\<rparr>"
  let ?marie = "\<lparr>title = Some ''Jane Marie O'Brien'', links = Some \<lparr>self = Some ''/officers/x1''\<rparr>,
        date_of_birth = None, address_snippet = None\<rparr>"
  let ?john = "\<lparr>title = Some ''John Smith'', links = Some \<lparr>self = Some ''/officers/x1''\<rparr>,
        date_of_birth = None, address_snippet = None\<rparr>"
  have a: "byPreciseMatch ?on ?plain ?dr"
    using name_filters [of ?dr ?plain ?on] by (simp add: property_def)
  have b: "byNonMiddleNameMatch ?on ?jane ?marie = Inr True"
    using name_filters [of ?marie ?jane ?on] by (simp add: property_def)
  have c: "byPreciseMatch ?off ?jane ?john"
    and d: "byNonMiddleNameMatch ?off ?jane ?john = Inr True"
    using name_filters [of ?john ?jane ?off] by simp_all
  from a b c d show ?thesis by simp
qed

section \<open>Properties of the request executor\<close>

text \<open>
  Claim C5. The \<^verbatim>\<open>messages\<close> callback classifies a call by its HTTP status: 429 throws
  the rate-limit error, 401 throws the invalid-key error naming the auth username, any
  other status from 400 up returns (does not throw) a message naming the status, the
  individual and the page, and a status below 400 returns nothing. The two thrown errors
  differ.
\<close>

theorem messages_classification:
  "(response_status e = 429 \<longrightarrow>
      messages e = Inl (Error ''The rate limit has been reached''))
   \<and> (response_status e = 401 \<longrightarrow>
      messages e = Inl (Error (''API key '' @ template (username (auth (config e))) @ '' is invalid'')))
   \<and> (400 \<le> response_status e \<and> response_status e \<noteq> 429 \<and> response_status e \<noteq> 401 \<longrightarrow>
      messages e = Inr (Some (''Received code '' @ toString (response_status e) @
          '' for individual '' @ individualName (passthrough (config e)) @
          '' on page '' @ toString (page (passthrough (config e))))))
   \<and> (response_status e < 400 \<longrightarrow> messages e = Inr None)
   \<and> Error ''The rate limit has been reached''
        \<noteq> Error (''API key '' @ template (username (auth (config e))) @ '' is invalid'')"
  by (simp add: messages_def Let_def)

text \<open>
  The classification at the statuses 429, 401, 404 and 200, for a query of the
  individual John Smith on page 2 made with the key abc.
\<close>

theorem messages_classification_witness:
  "messages \<lparr>config = \<lparr>url = ''u'', auth = \<lparr>username = Str ''abc'', password = []\<rparr>,
                params = \<lparr>q = ''John Smith'', items_per_page = 100, start_index = Some 100\<rparr>,
                passthrough = \<lparr>individualName = ''John Smith'', page = 2\<rparr>\<rparr>,
              response_status = 429\<rparr> = Inl (Error ''The rate limit has been reached'')
   \<and> messages \<lparr>config = \<lparr>url = ''u'', auth = \<lparr>username = Str ''abc'', password = []\<rparr>,
                params = \<lparr>q = ''John Smith'', items_per_page = 100, start_index = Some 100\<rparr>,
                passthrough = \<lparr>individualName = ''John Smith'', page = 2\<rparr>\<rparr>,
              response_status = 401\<rparr> = Inl (Error ''API key abc is invalid'')
   \<and> messages \<lparr>config = \<lparr>url = ''u'', auth = \<lparr>username = Str ''abc'', password = []\<rparr>,
                params = \<lparr>q = ''John Smith'', items_per_page = 100, start_index = Some 100\<rparr>,
                passthrough = \<lparr>individualName = ''John Smith'', page = 2\<rparr>\<rparr>,
              response_status = 404\<rparr>
       = Inr (Some ''Received code 404 for individual John Smith on page 2'')
   \<and> messages \<lparr>config = \<lparr>url = ''u'', auth = \<lparr>username = Str ''abc'', password = []\<rparr>,
                params = \<lparr>q = ''John Smith'', items_per_page = 100, start_index = Some 100\<rparr>,
                passthrough = \<lparr>individualName = ''John Smith'', page = 2\<rparr>\<rparr>,
              response_status = 200\<rparr> = Inr None"
proof -
  let ?q = "\<lparr>url = ''u'', auth = \<lparr>username = Str ''abc'', password = []\<rparr>,
                params = \<lparr>q = ''John Smith'', items_per_page = 100, start_index = Some 100\<rparr>,
                passthrough = \<lparr>individualName = ''John Smith'', page = 2\<rparr>\<rparr>"
  have n: "toString 404 = ''404''" and p: "toString 2 = ''2''"
    by (simp_all add: toString_def digits.simps)
  have a: "messages \<lparr>config = ?q, response_status = 429\<rparr>
             = Inl (Error ''The rate limit has been reached'')"
    using messages_classification [of "\<lparr>config = ?q, response_status = 429\<rparr>"] by simp
  have b: "messages \<lparr>config = ?q, response_status = 401\<rparr> = Inl (Error ''API key abc is invalid'')"
    using messages_classification [of "\<lparr>config = ?q, response_status = 401\<rparr>"] by simp
  have c: "messages \<lparr>config = ?q, response_status = 404\<rparr>
             = Inr (Some ''Received code 404 for individual John Smith on page 2'')"
    using messages_classification [of "\<lparr>config = ?q, response_status = 404\<rparr>"] by (simp add: n p)
  have d: "messages \<lparr>config = ?q, response_status = 200\<rparr> = Inr None"
    using messages_classification [of "\<lparr>config = ?q, response_status = 200\<rparr>"] by simp
  from a b c d show ?thesis by simp
qed

section \<open>Properties of the parser\<close>

lemma filterE_subset: "filterE p xs = Inr ys \<Longrightarrow> set ys \<subseteq> set xs"
proof (induction xs arbitrary: ys)
  case Nil
  then show ?case by simp
next
  case (Cons x xs)
  then show ?case
    by (auto split: sum.splits if_splits)
qed

lemma filterE_throws:
  "x \<in> set xs \<Longrightarrow> p x = Inl e \<Longrightarrow> (\<And>y e'. p y = Inl e' \<Longrightarrow> e' = e) \<Longrightarrow> filterE p xs = Inl e"
proof (induction xs)
  case Nil
  from Nil.prems(1) show ?case by simp
next
  case (Cons a xs)
  show ?case
  proof (cases "p a")
    case (Inl e')
    from Cons.prems(3) [OF Inl] have "e' = e" .
    with Inl show ?thesis by simp
  next
    case (Inr b)
    with Cons.prems(1,2) have "x \<in> set xs" by auto
    then have "filterE p xs = Inl e"
      using Cons.prems(2,3) by (rule Cons.IH)
    with Inr show ?thesis by simp
  qed
qed

lemma mapE_elements: "mapE f xs = Inr ys \<Longrightarrow> y \<in> set ys \<Longrightarrow> \<exists>x. x \<in> set xs \<and> f x = Inr y"
proof (induction xs arbitrary: ys)
  case Nil
  then show ?case by simp
next
  case (Cons a xs)
  then show ?case
    by (fastforce split: sum.splits)
qed

lemma byNonMiddleNameMatch_error: "byNonMiddleNameMatch ps en ind = Inl e \<Longrightarrow> e = TypeError"
  by (auto simp: byNonMiddleNameMatch_def split: if_splits option.splits)

lemma digits_nonempty: "digits n \<noteq> []"
  by (subst digits.simps) simp

lemma toString_nonempty: "toString i \<noteq> []"
  by (simp add: toString_def digits_nonempty)

lemma join_nonempty: "xs \<noteq> [] \<Longrightarrow> [] \<notin> set xs \<Longrightarrow> join sep xs \<noteq> []"
  by (induction sep xs rule: join.induct) auto

lemma officerDateOfBirth_Null:
  "(officerDateOfBirth c = Null)
     = (\<not> truthy_num (component c year) \<and> \<not> truthy_num (component c month)
        \<and> \<not> truthy_num (component c day))"
proof -
  let ?cs = "concat (map (\<lambda>x. case x of None \<Rightarrow> [] | Some n \<Rightarrow> if n = 0 then [] else [n])
                     [component c year, component c month, component c day])"
  have "join ''-'' (map toString ?cs) \<noteq> []" if "?cs \<noteq> []"
    using that by (intro join_nonempty) (auto simp: toString_nonempty [THEN not_sym])
  moreover have "(?cs = []) = (\<not> truthy_num (component c year) \<and> \<not> truthy_num (component c month)
        \<and> \<not> truthy_num (component c day))"
    by (auto simp: truthy_num_def split: option.splits)
  ultimately show ?thesis
    unfolding officerDateOfBirth_def Let_def by (auto split: if_splits)
qed

lemma officerDateOfBirth_defined: "officerDateOfBirth c \<noteq> Undefined"
  by (simp add: officerDateOfBirth_def Let_def)

lemma fields_row:
  "fields ind = Inr row \<Longrightarrow>
     map fst row = columns
     \<and> map_of row ''officerName'' = Some (opt (title ind))
     \<and> map_of row ''officerDateOfBirth'' = Some (officerDateOfBirth ind)
     \<and> map_of row ''officerAddress'' = Some (opt (address_snippet ind))"
  by (auto simp: fields_def columns_def split: option.splits)

lemma parse_rows:
  "parse ps (Some r) en = Inr (Some rows) \<Longrightarrow> row \<in> set rows \<Longrightarrow>
     \<exists>ind. ind \<in> set (items (rdata r)) \<and> fields ind = Inr row"
proof -
  assume p: "parse ps (Some r) en = Inr (Some rows)" and mem: "row \<in> set rows"
  from p obtain individuals where
    f: "filterE (byNonMiddleNameMatch ps en)
          (filter (byPreciseMatch ps en) (filter (byDateOfBirth ps en) (items (rdata r))))
        = Inr individuals"
    and m: "mapE fields individuals = Inr rows"
    by (auto simp: parse_def split: sum.splits)
  from mapE_elements [OF m mem] obtain ind where i: "ind \<in> set individuals" "fields ind = Inr row"
    by blast
  from filterE_subset [OF f] i(1) have "ind \<in> set (items (rdata r))" by auto
  with i(2) show ?thesis by blast
qed

text \<open>
  Claim C3, amended. Every row that \<^verbatim>\<open>parse\<close> returns has exactly the keys of the
  declared columns, in their order. Its \<open>officerDateOfBirth\<close> is never \<^verbatim>\<open>undefined\<close>: it
  is \<^verbatim>\<open>null\<close> exactly when the candidate has no (non-zero) year, month or day, and the
  components joined with a dash otherwise. Its \<open>officerName\<close> and \<open>officerAddress\<close> are
  the candidate's \<^verbatim>\<open>title\<close> and \<^verbatim>\<open>address_snippet\<close> as they are, \<^verbatim>\<open>undefined\<close> when the
  candidate has none.
\<close>

theorem parse_schema:
  "parse ps (Some r) en = Inr (Some rows) \<Longrightarrow> row \<in> set rows \<Longrightarrow>
     map fst row = columns
   \<and> (\<exists>ind. ind \<in> set (items (rdata r))
         \<and> map_of row ''officerName'' = Some (opt (title ind))
         \<and> map_of row ''officerDateOfBirth'' = Some (officerDateOfBirth ind)
         \<and> map_of row ''officerAddress'' = Some (opt (address_snippet ind)))
   \<and> officerDateOfBirth c \<noteq> Undefined
   \<and> (officerDateOfBirth c = Null)
        = (\<not> truthy_num (component c year) \<and> \<not> truthy_num (component c month)
           \<and> \<not> truthy_num (component c day))"
proof -
  assume p: "parse ps (Some r) en = Inr (Some rows)" and mem: "row \<in> set rows"
  from parse_rows [OF p mem] obtain ind where
    i: "ind \<in> set (items (rdata r))" "fields ind = Inr row" by blast
  from fields_row [OF i(2)] i(1) officerDateOfBirth_defined [of c] officerDateOfBirth_Null [of c]
  show ?thesis by blast
qed

text \<open>
  Claim C3 as stated fails on a candidate with no \<^verbatim>\<open>address_snippet\<close>: the row's
  \<open>officerAddress\<close> is \<^verbatim>\<open>undefined\<close>, not \<^verbatim>\<open>null\<close>.
\<close>

theorem parse_undefined_field_counterexample:
  "parse \<lparr>apiKey = Key (Str ''key''), individualNameField = Some ''name'',
          dateOfBirthField = None, nonMiddleNameMatch = False, preciseMatch = False\<rparr>
     (Some \<lparr>status = 200,
            rdata = \<lparr>total_results = 1,
                     items = [\<lparr>title = Some ''John Smith'',
                               links = Some \<lparr>self = Some ''/officers/abc123''\<rparr>,
                               date_of_birth = None, address_snippet = None\<rparr>]\<rparr>,
            rurl = ''u'', rauth = \<lparr>username = Str ''key'', password = []\<rparr>,
            rpassthrough = \<lparr>individualName = ''John Smith'', page = 1\<rparr>\<rparr>)
     \<lparr>data = [''name'' \<mapsto> ''John Smith''], line = 3\<rparr>
   = Inr (Some [[(''officerID'', Str ''abc123''), (''officerName'', Str ''John Smith''),
                 (''officerDateOfBirth'', Null), (''officerAddress'', Undefined)]])"
  by (simp add: parse_def byDateOfBirth_def byPreciseMatch_def byNonMiddleNameMatch_def
        truthy_str_def fields_def opt_def at_def officerDateOfBirth_def component_def)

text \<open>The schema theorem at the row of that candidate.\<close>

theorem parse_schema_witness:
  "map fst [(''officerID'', Str ''abc123''), (''officerName'', Str ''John Smith''),
            (''officerDateOfBirth'', Null), (''officerAddress'', Undefined)] = columns"
proof -
  let ?ps = "\<lparr>apiKey = Key (Str ''key''), individualNameField = Some ''name'',
          dateOfBirthField = None, nonMiddleNameMatch = False, preciseMatch = False\<rparr>"
  let ?r = "\<lparr>status = 200,
            rdata = \<lparr>total_results = 1,
                     items = [\<lparr>title = Some ''John Smith'',
                               links = Some \<lparr>self = Some ''/officers/abc123''\<rparr>,
                               date_of_birth = None, address_snippet = None\<rparr>]\<rparr>,
            rurl = ''u'', rauth = \<lparr>username = Str ''key'', password = []\<rparr>,
            rpassthrough = \<lparr>individualName = ''John Smith'', page = 1\<rparr>\<rparr>"
  let ?en = "\<lparr>data = [''name'' \<mapsto> ''John Smith''], line = 3\<rparr>"
  let ?row = "[(''officerID'', Str ''abc123''), (''officerName'', Str ''John Smith''),
            (''officerDateOfBirth'', Null), (''officerAddress'', Undefined)]"
  have p: "parse ?ps (Some ?r) ?en = Inr (Some [?row])"
    by (simp add: parse_def byDateOfBirth_def byPreciseMatch_def byNonMiddleNameMatch_def
        truthy_str_def fields_def opt_def at_def officerDateOfBirth_def component_def)
  have mem: "?row \<in> set [?row]" by simp
  from parse_schema [OF p mem] show ?thesis by blast
qed

lemma byNonMiddleNameMatch_title_absent:
  "nonMiddleNameMatch ps \<Longrightarrow> title ind = None \<Longrightarrow> byNonMiddleNameMatch ps en ind = Inl TypeError"
  by (simp add: byNonMiddleNameMatch_def normalised_def)

lemma parse_throws:
  assumes on: "nonMiddleNameMatch ps"
    and mem: "ind \<in> set (items (rdata r))"
    and absent: "title ind = None"
    and dob: "byDateOfBirth ps en ind"
    and precise: "byPreciseMatch ps en ind"
  shows "parse ps (Some r) en = Inl TypeError"
proof -
  let ?xs = "filter (byPreciseMatch ps en) (filter (byDateOfBirth ps en) (items (rdata r)))"
  have "ind \<in> set ?xs"
    using mem dob precise by simp
  moreover have "byNonMiddleNameMatch ps en ind = Inl TypeError"
    using on absent by (rule byNonMiddleNameMatch_title_absent)
  ultimately have "filterE (byNonMiddleNameMatch ps en) ?xs = Inl TypeError"
    using byNonMiddleNameMatch_error by (rule filterE_throws)
  then show ?thesis
    by (simp add: parse_def)
qed

text \<open>
  Claim C9 as stated fails when the exact-name filter is switched on as well: it removes
  the candidate without a title before the first/last-name filter sees it, and \<^verbatim>\<open>parse\<close>
  returns the empty array.
\<close>

theorem parse_title_absent_counterexample:
  "parse \<lparr>apiKey = Key (Str ''key''), individualNameField = Some ''name'',
          dateOfBirthField = None, nonMiddleNameMatch = True, preciseMatch = True\<rparr>
     (Some \<lparr>status = 200,
            rdata = \<lparr>total_results = 1,
                     items = [\<lparr>title = None,
                               links = Some \<lparr>self = Some ''/officers/abc123''\<rparr>,
                               date_of_birth = None, address_snippet = None\<rparr>]\<rparr>,
            rurl = ''u'', rauth = \<lparr>username = Str ''key'', password = []\<rparr>,
            rpassthrough = \<lparr>individualName = ''John Smith'', page = 1\<rparr>\<rparr>)
     \<lparr>data = [''name'' \<mapsto> ''John Smith''], line = 3\<rparr>
   = Inr (Some [])"
  by (simp add: parse_def byDateOfBirth_def byPreciseMatch_def truthy_str_def property_def
        normalised_def)

text \<open>
  Claim C9, amended. With \<^verbatim>\<open>nonMiddleNameMatch\<close> set, the first/last-name filter throws
  a TypeError on a candidate whose \<^verbatim>\<open>title\<close> is absent, so \<^verbatim>\<open>parse\<close> throws it whenever
  such a candidate of the response passes the date-of-birth and exact-name filters that
  run first, as it does when \<^verbatim>\<open>preciseMatch\<close> is unset and no birth-date column is
  configured. The exact-name filter, when set, silently rejects such a candidate for an
  entry that has a name.
\<close>

theorem parse_title_absent_throws:
  "nonMiddleNameMatch ps \<Longrightarrow> ind \<in> set (items (rdata r)) \<Longrightarrow> title ind = None \<Longrightarrow>
     byNonMiddleNameMatch ps en ind = Inl TypeError
   \<and> (byDateOfBirth ps en ind \<and> byPreciseMatch ps en ind \<longrightarrow>
        parse ps (Some r) en = Inl TypeError)
   \<and> (\<not> preciseMatch ps \<and> \<not> truthy_str (dateOfBirthField ps) \<longrightarrow>
        parse ps (Some r) en = Inl TypeError)
   \<and> (preciseMatch ps \<and> property (data en) (individualNameField ps) = Some n \<longrightarrow>
        \<not> byPreciseMatch ps en ind)"
proof -
  assume on: "nonMiddleNameMatch ps" and mem: "ind \<in> set (items (rdata r))"
    and absent: "title ind = None"
  have a: "byNonMiddleNameMatch ps en ind = Inl TypeError"
    using on absent by (rule byNonMiddleNameMatch_title_absent)
  have b: "parse ps (Some r) en = Inl TypeError"
    if "byDateOfBirth ps en ind" and "byPreciseMatch ps en ind"
    using on mem absent that by (rule parse_throws)
  have c: "parse ps (Some r) en = Inl TypeError"
    if "\<not> preciseMatch ps" and "\<not> truthy_str (dateOfBirthField ps)"
  proof (rule b)
    show "byDateOfBirth ps en ind" using that(2) by (simp add: byDateOfBirth_def)
    show "byPreciseMatch ps en ind" using that(1) by (simp add: byPreciseMatch_def)
  qed
  have d: "\<not> byPreciseMatch ps en ind"
    if "preciseMatch ps" and "property (data en) (individualNameField ps) = Some n"
    using that absent by (simp add: byPreciseMatch_def normalised_def)
  from a b c d show ?thesis by blast
qed

text \<open>
  The amended theorem at a response with one candidate without a title, with only the
  first/last-name filter switched on: \<^verbatim>\<open>parse\<close> throws.
\<close>

theorem parse_title_absent_throws_witness:
  "parse \<lparr>apiKey = Key (Str ''key''), individualNameField = Some ''name'',
          dateOfBirthField = None, nonMiddleNameMatch = True, preciseMatch = False\<rparr>
     (Some \<lparr>status = 200,
            rdata = \<lparr>total_results = 1,
                     items = [\<lparr>title = None,
                               links = Some \<lparr>self = Some ''/officers/abc123''\<rparr>,
                               date_of_birth = None, address_snippet = None\<rparr>]\<rparr>,
            rurl = ''u'', rauth = \<lparr>username = Str ''key'', password = []\<rparr>,
            rpassthrough = \<lparr>individualName = ''John Smith'', page = 1\<rparr>\<rparr>)
     \<lparr>data = [''name'' \<mapsto> ''John Smith''], line = 3\<rparr>
   = Inl TypeError"
proof -
  let ?ps = "\<lparr>apiKey = Key (Str ''key''), individualNameField = Some ''name'',
          dateOfBirthField = None, nonMiddleNameMatch = True, preciseMatch = False\<rparr>"
  let ?ind = "\<lparr>title = None, links = Some \<lparr>self = Some ''/officers/abc123''\<rparr>,
                               date_of_birth = None, address_snippet = None\<rparr>"
  let ?r = "\<lparr>status = 200, rdata = \<lparr>total_results = 1, items = [?ind]\<rparr>,
            rurl = ''u'', rauth = \<lparr>username = Str ''key'', password = []\<rparr>,
            rpassthrough = \<lparr>individualName = ''John Smith'', page = 1\<rparr>\<rparr>"
  let ?en = "\<lparr>data = [''name'' \<mapsto> ''John Smith''], line = 3\<rparr>"
  have on: "nonMiddleNameMatch ?ps" by simp
  have mem: "?ind \<in> set (items (rdata ?r))" by simp
  have absent: "title ?ind = None" by simp
  from parse_title_absent_throws [OF on mem absent, of ?en]
  show ?thesis by (simp add: truthy_str_def)
qed

section \<open>Properties of the paginator\<close>

lemma pageTotal_ceiling:
  "0 \<le> n \<Longrightarrow> 100 * (int (pageTotal n) - 1) < n \<and> n \<le> 100 * int (pageTotal n)"
  unfolding pageTotal_def by (simp add: nat_0_le) linarith

lemma pageNumbers_range: "100 < n \<Longrightarrow> pageNumbers n = [1 ..< min (pageTotal n) 10]"
proof -
  assume big: "100 < n"
  then have "1 \<le> pageTotal n"
    unfolding pageTotal_def by linarith
  then show ?thesis
    unfolding pageNumbers_def slice_def
    by (cases "pageTotal n \<le> 10") (simp_all add: min_def take_upt)
qed

lemma pages_upt: "map (\<lambda>p. int p + 1) [1 ..< k] = map int [2 ..< Suc k]"
proof -
  have "map (\<lambda>p. int p + 1) [1 ..< k] = map int (map Suc [1 ..< k])"
    by simp
  also have "map Suc [1 ..< k] = [2 ..< Suc k]"
    by (simp only: map_Suc_upt) (simp add: numeral_2_eq_2)
  finally show ?thesis .
qed

lemma rotations_length: "length (fst (rotations ks n c)) = n"
proof (induction n arbitrary: c)
  case 0
  show ?case by simp
next
  case (Suc n)
  obtain k c1 where step: "apiKeysRotated ks c = (k, c1)"
    by (cases "apiKeysRotated ks c")
  obtain rest c2 where more: "rotations ks n c1 = (rest, c2)"
    by (cases "rotations ks n c1")
  from Suc.IH [of c1] more have "length rest = n" by simp
  then show ?case by (simp add: step more)
qed

lemma pageQueries_rotations:
  "pageQueries ks r ns c =
     (map2 (\<lambda>p k. \<lparr>url = rurl r,
                    auth = \<lparr>username = k, password = []\<rparr>,
                    params = \<lparr>q = trim (individualName (rpassthrough r)), items_per_page = 100,
                              start_index = Some (int p * 100)\<rparr>,
                    passthrough = \<lparr>individualName = individualName (rpassthrough r),
                                   page = int p + 1\<rparr>\<rparr>)
        ns (fst (rotations ks (length ns) c)),
      snd (rotations ks (length ns) c))"
proof (induction ns arbitrary: c)
  case Nil
  show ?case by simp
next
  case (Cons p ns)
  obtain k c1 where step: "apiKeysRotated ks c = (k, c1)"
    by (cases "apiKeysRotated ks c")
  obtain rest c2 where more: "rotations ks (length ns) c1 = (rest, c2)"
    by (cases "rotations ks (length ns) c1")
  show ?case
    by (simp add: step more Cons.IH [of c1])
qed

lemma firstRejection_none:
  "(\<And>x. x \<in> set xs \<Longrightarrow> \<not> isl (snd x)) \<Longrightarrow> firstRejection settled i xs = None"
proof (induction xs arbitrary: i)
  case Nil
  show ?case by simp
next
  case (Cons a xs)
  obtain ms r where a: "a = (ms, r)" by (cases a)
  from Cons.prems [of a] a obtain y where r: "r = Inr y" by (cases r) auto
  have "firstRejection settled (Suc i) xs = None"
  proof (rule Cons.IH)
    fix x assume "x \<in> set xs"
    then show "\<not> isl (snd x)" using Cons.prems [of x] by simp
  qed
  then show ?case by (simp add: a r)
qed

lemma fulfilled_all:
  "(\<And>x. x \<in> set xs \<Longrightarrow> \<not> isl (snd x)) \<Longrightarrow> fulfilled xs = map (\<lambda>x. projr (snd x)) xs"
proof (induction xs)
  case Nil
  show ?case by simp
next
  case (Cons a xs)
  obtain ms r where a: "a = (ms, r)" by (cases a)
  from Cons.prems [of a] a obtain y where r: "r = Inr y" by (cases r) auto
  have "fulfilled xs = map (\<lambda>x. projr (snd x)) xs"
  proof (rule Cons.IH)
    fix x assume "x \<in> set xs"
    then show "\<not> isl (snd x)" using Cons.prems [of x] by simp
  qed
  then show ?case by (simp add: a r)
qed

lemma firstRejection_some:
  "x \<in> set xs \<Longrightarrow> isl (snd x) \<Longrightarrow> \<exists>t e. firstRejection settled i xs = Some (t, e)"
proof (induction xs arbitrary: i)
  case Nil
  then show ?case by simp
next
  case (Cons a xs)
  obtain ms r where a: "a = (ms, r)" by (cases a)
  show ?case
  proof (cases r)
    case (Inl e)
    then show ?thesis
      by (cases "firstRejection settled (Suc i) xs") (auto simp: a)
  next
    case (Inr y)
    with Cons.prems a have "x \<in> set xs" by auto
    from Cons.IH [OF this Cons.prems(2), of "Suc i"] Inr show ?thesis
      by (simp add: a)
  qed
qed

text \<open>The error reported is that of a rejected call, and no rejected call settles before it.\<close>

lemma firstRejection_earliest:
  "firstRejection settled i xs = Some (t, e) \<Longrightarrow>
     (\<exists>k < length xs. snd (xs ! k) = Inl e \<and> t = settled (i + k))
     \<and> (\<forall>j < length xs. isl (snd (xs ! j)) \<longrightarrow> t \<le> settled (i + j))"
proof (induction xs arbitrary: i t e)
  case Nil
  then show ?case by simp
next
  case (Cons a xs)
  obtain ms r where a: "a = (ms, r)" by (cases a)
  show ?case
  proof (cases r)
    case (Inr y)
    with Cons.prems a have rest: "firstRejection settled (Suc i) xs = Some (t, e)" by simp
    from Cons.IH [OF rest] obtain k where k: "k < length xs" "snd (xs ! k) = Inl e"
        "t = settled (Suc i + k)"
      and least: "\<forall>j < length xs. isl (snd (xs ! j)) \<longrightarrow> t \<le> settled (Suc i + j)"
      by blast
    have "\<exists>k < length (a # xs). snd ((a # xs) ! k) = Inl e \<and> t = settled (i + k)"
      using k by (intro exI [of _ "Suc k"]) simp
    moreover have "\<forall>j < length (a # xs). isl (snd ((a # xs) ! j)) \<longrightarrow> t \<le> settled (i + j)"
    proof (intro allI impI)
      fix j assume j: "j < length (a # xs)" and rej: "isl (snd ((a # xs) ! j))"
      show "t \<le> settled (i + j)"
      proof (cases j)
        case 0
        with rej a Inr show ?thesis by simp
      next
        case (Suc j')
        with j rej least show ?thesis by simp
      qed
    qed
    ultimately show ?thesis by blast
  next
    case (Inl e0)
    show ?thesis
    proof (cases "firstRejection settled (Suc i) xs")
      case None
      with Cons.prems a Inl have te: "t = settled i" "e = e0" by simp_all
      have none: "\<not> isl (snd (xs ! j))" if "j < length xs" for j
      proof
        assume "isl (snd (xs ! j))"
        with that firstRejection_some [of "xs ! j" xs settled "Suc i"] None
        show False by simp
      qed
      have "\<exists>k < length (a # xs). snd ((a # xs) ! k) = Inl e \<and> t = settled (i + k)"
        using te a Inl by (intro exI [of _ 0]) simp
      moreover have "\<forall>j < length (a # xs). isl (snd ((a # xs) ! j)) \<longrightarrow> t \<le> settled (i + j)"
      proof (intro allI impI)
        fix j assume j: "j < length (a # xs)" and rej: "isl (snd ((a # xs) ! j))"
        show "t \<le> settled (i + j)"
        proof (cases j)
          case 0
          with te show ?thesis by simp
        next
          case (Suc j')
          with j rej none [of j'] show ?thesis by simp
        qed
      qed
      ultimately show ?thesis by blast
    next
      case (Some te')
      obtain t' e' where te': "te' = (t', e')" by (cases te')
      from Cons.IH [of "Suc i" t' e'] Some te'
      obtain k where k: "k < length xs" "snd (xs ! k) = Inl e'" "t' = settled (Suc i + k)"
        and least: "\<forall>j < length xs. isl (snd (xs ! j)) \<longrightarrow> t' \<le> settled (Suc i + j)"
        by blast
      show ?thesis
      proof (cases "settled i \<le> t'")
        case True
        with Cons.prems a Inl Some te' have te: "t = settled i" "e = e0" by simp_all
        have "\<exists>k < length (a # xs). snd ((a # xs) ! k) = Inl e \<and> t = settled (i + k)"
          using te a Inl by (intro exI [of _ 0]) simp
        moreover have "\<forall>j < length (a # xs). isl (snd ((a # xs) ! j)) \<longrightarrow> t \<le> settled (i + j)"
        proof (intro allI impI)
          fix j assume j: "j < length (a # xs)" and rej: "isl (snd ((a # xs) ! j))"
          show "t \<le> settled (i + j)"
          proof (cases j)
            case 0
            with te show ?thesis by simp
          next
            case (Suc j')
            with j rej least have "t' \<le> settled (Suc i + j')" by simp
            with True te Suc show ?thesis by simp
          qed
        qed
        ultimately show ?thesis by blast
      next
        case False
        with Cons.prems a Inl Some te' have te: "t = t'" "e = e'" by simp_all
        have "\<exists>k < length (a # xs). snd ((a # xs) ! k) = Inl e \<and> t = settled (i + k)"
          using k te by (intro exI [of _ "Suc k"]) simp
        moreover have "\<forall>j < length (a # xs). isl (snd ((a # xs) ! j)) \<longrightarrow> t \<le> settled (i + j)"
        proof (intro allI impI)
          fix j assume j: "j < length (a # xs)" and rej: "isl (snd ((a # xs) ! j))"
          show "t \<le> settled (i + j)"
          proof (cases j)
            case 0
            with False te show ?thesis by simp
          next
            case (Suc j')
            with j rej least te show ?thesis by simp
          qed
        qed
        ultimately show ?thesis by blast
      qed
    qed
  qed
qed

lemma awaitAll_fulfilled:
  "(\<And>x. x \<in> set xs \<Longrightarrow> \<not> isl (snd x)) \<Longrightarrow>
     snd (awaitAll settled xs) = Inr (map (\<lambda>x. projr (snd x)) xs)"
  by (simp add: awaitAll_def firstRejection_none fulfilled_all)

lemma awaitAll_rejected:
  assumes "x \<in> set xs" and "isl (snd x)"
  shows "\<exists>y e. y \<in> set xs \<and> snd y = Inl e \<and> snd (awaitAll settled xs) = Inl e"
proof -
  from firstRejection_some [OF assms, of settled 0]
  obtain t e where first: "firstRejection settled 0 xs = Some (t, e)" by blast
  from firstRejection_earliest [OF first]
  obtain k where "k < length xs" "snd (xs ! k) = Inl e" by blast
  then have "xs ! k \<in> set xs \<and> snd (xs ! k) = Inl e" by simp
  moreover have "snd (awaitAll settled xs) = Inl e"
    by (simp add: awaitAll_def first)
  ultimately show ?thesis by blast
qed

lemma issued_queries:
  assumes big: "100 < n"
  shows "fst (pageQueries ks r (pageNumbers n) c) =
     map2 (\<lambda>p k. \<lparr>url = rurl r,
                    auth = \<lparr>username = k, password = []\<rparr>,
                    params = \<lparr>q = trim (individualName (rpassthrough r)), items_per_page = 100,
                              start_index = Some ((p - 1) * 100)\<rparr>,
                    passthrough = \<lparr>individualName = individualName (rpassthrough r),
                                   page = p\<rparr>\<rparr>)
        (map int [2 ..< Suc (min (pageTotal n) 10)])
        (fst (rotations ks (min (pageTotal n) 10 - 1) c))"
proof -
  let ?K = "min (pageTotal n) 10"
  have len: "length [1 ..< ?K] = ?K - 1" by simp
  have "map int [2 ..< Suc ?K] = map (\<lambda>p. int p + 1) [1 ..< ?K]"
    by (simp only: pages_upt)
  then show ?thesis
    unfolding pageNumbers_range [OF big] pageQueries_rotations len
    by (simp add: zip_map1 case_prod_unfold)
qed

lemma issued_pages:
  "map (\<lambda>qu. page (passthrough qu))
     (map2 (\<lambda>p k. \<lparr>url = u,
                    auth = \<lparr>username = k, password = []\<rparr>,
                    params = \<lparr>q = s, items_per_page = 100, start_index = Some ((p - 1) * 100)\<rparr>,
                    passthrough = \<lparr>individualName = name, page = p\<rparr>\<rparr>)
        (map int [2 ..< Suc K]) (fst (rotations ks (K - 1) c)))
   = map int [2 ..< Suc K]"
proof -
  have "length (map int [2 ..< Suc K]) = length (fst (rotations ks (K - 1) c))"
    by (auto simp: rotations_length)
  then have "map fst (zip (map int [2 ..< Suc K]) (fst (rotations ks (K - 1) c)))
      = map int [2 ..< Suc K]"
    by (rule map_fst_zip)
  then show ?thesis
    by (simp add: case_prod_unfold o_def)
qed


lemma paginate_result:
  assumes big: "100 < total_results (rdata r)"
    and issued: "fst (pageQueries (apiKeys ps) r (pageNumbers (total_results (rdata r))) (nxt st)) = qs"
  shows "fst (paginate ps request settled (Some r) st) =
     (case snd (awaitAll settled (map (\<lambda>qu. request (Some qu)) qs)) of
        Inl e \<Rightarrow> Inl e
      | Inr pageResponses \<Rightarrow> Inr (Some (Some r # pageResponses)))"
proof -
  obtain c where build:
    "pageQueries (apiKeys ps) r (pageNumbers (total_results (rdata r))) (nxt st) = (qs, c)"
    using issued by (cases "pageQueries (apiKeys ps) r (pageNumbers (total_results (rdata r))) (nxt st)") simp
  obtain ms rs where joined: "awaitAll settled (map (\<lambda>qu. request (Some qu)) qs) = (ms, rs)"
    by (cases "awaitAll settled (map (\<lambda>qu. request (Some qu)) qs)")
  show ?thesis
    using big by (cases rs) (simp_all add: paginate_def build joined)
qed

text \<open>
  Claim C2, amended. \<^verbatim>\<open>paginate\<close> returns \<^verbatim>\<open>undefined\<close> for an \<^verbatim>\<open>undefined\<close> response, and
  the one-element array of the response when its \<^verbatim>\<open>total_results\<close> \<open>T\<close> is at most 100.
  Above 100 it issues exactly one follow-up query per page \<open>p\<close> from 2 up to \<open>K\<close>, the
  smaller of \<^verbatim>\<open>ceil(T / 100)\<close> and 10, in ascending order: to the url of the response, for
  the same trimmed name, 100 items per page from \<^verbatim>\<open>start_index\<close> \<open>(p - 1) * 100\<close>, with the
  next key of the rotator and the page number in the passthrough. When none of these
  calls throws, the result is the response followed by the outcomes of the calls in page
  order, whatever the order \<open>settled\<close> in which they complete; when one throws,
  \<^verbatim>\<open>paginate\<close> throws the error of one of them. \<open>pageTotal\<close> is the ceiling of \<open>T / 100\<close>;
  250 results give the pages 2 and 3, and 950 results the pages 2 to 10.
\<close>

theorem paginate_pages:
  "T = total_results (rdata r) \<Longrightarrow>
   K = min (pageTotal T) 10 \<Longrightarrow>
   issued = map2 (\<lambda>p k. \<lparr>url = rurl r,
                    auth = \<lparr>username = k, password = []\<rparr>,
                    params = \<lparr>q = trim (individualName (rpassthrough r)), items_per_page = 100,
                              start_index = Some ((p - 1) * 100)\<rparr>,
                    passthrough = \<lparr>individualName = individualName (rpassthrough r),
                                   page = p\<rparr>\<rparr>)
              (map int [2 ..< Suc K]) (fst (rotations (apiKeys ps) (K - 1) (nxt st))) \<Longrightarrow>
     paginate ps request settled None st = (Inr None, st)
   \<and> (T \<le> 100 \<longrightarrow> paginate ps request settled (Some r) st = (Inr (Some [Some r]), st))
   \<and> (100 < T \<longrightarrow>
        fst (pageQueries (apiKeys ps) r (pageNumbers T) (nxt st)) = issued
        \<and> map (\<lambda>qu. page (passthrough qu)) issued = map int [2 ..< Suc K]
        \<and> 100 * (int (pageTotal T) - 1) < T \<and> T \<le> 100 * int (pageTotal T))
   \<and> (100 < T \<and> (\<forall>qu. qu \<in> set issued \<longrightarrow> \<not> isl (snd (request (Some qu)))) \<longrightarrow>
        fst (paginate ps request settled (Some r) st)
          = Inr (Some (Some r # map (\<lambda>qu. projr (snd (request (Some qu)))) issued)))
   \<and> (100 < T \<and> (\<exists>qu. qu \<in> set issued \<and> isl (snd (request (Some qu)))) \<longrightarrow>
        (\<exists>qu e. qu \<in> set issued \<and> snd (request (Some qu)) = Inl e
                \<and> fst (paginate ps request settled (Some r) st) = Inl e))
   \<and> map int [2 ..< Suc (min (pageTotal 250) 10)] = [2, 3]
   \<and> map int [2 ..< Suc (min (pageTotal 950) 10)] = [2, 3, 4, 5, 6, 7, 8, 9, 10]"
proof -
  assume T: "T = total_results (rdata r)" and K: "K = min (pageTotal T) 10"
    and I: "issued = map2 (\<lambda>p k. \<lparr>url = rurl r,
                    auth = \<lparr>username = k, password = []\<rparr>,
                    params = \<lparr>q = trim (individualName (rpassthrough r)), items_per_page = 100,
                              start_index = Some ((p - 1) * 100)\<rparr>,
                    passthrough = \<lparr>individualName = individualName (rpassthrough r),
                                   page = p\<rparr>\<rparr>)
              (map int [2 ..< Suc K]) (fst (rotations (apiKeys ps) (K - 1) (nxt st)))"
  let ?calls = "map (\<lambda>qu. request (Some qu)) issued"
  have a: "paginate ps request settled None st = (Inr None, st)"
    by (simp add: paginate_def)
  have b: "paginate ps request settled (Some r) st = (Inr (Some [Some r]), st)" if "T \<le> 100"
    using that T by (simp add: paginate_def)
  have c1: "fst (pageQueries (apiKeys ps) r (pageNumbers T) (nxt st)) = issued" if "100 < T"
    unfolding I K by (rule issued_queries [OF that])
  have c2: "map (\<lambda>qu. page (passthrough qu)) issued = map int [2 ..< Suc K]"
    unfolding I by (rule issued_pages)
  have c3: "100 * (int (pageTotal T) - 1) < T \<and> T \<le> 100 * int (pageTotal T)" if "100 < T"
    using that by (intro pageTotal_ceiling) simp
  have result: "fst (paginate ps request settled (Some r) st) =
     (case snd (awaitAll settled ?calls) of
        Inl e \<Rightarrow> Inl e
      | Inr pageResponses \<Rightarrow> Inr (Some (Some r # pageResponses)))" if "100 < T"
    using that c1 [OF that] unfolding T by (intro paginate_result) simp_all
  have d: "fst (paginate ps request settled (Some r) st)
          = Inr (Some (Some r # map (\<lambda>qu. projr (snd (request (Some qu)))) issued))"
    if big: "100 < T" and calm: "\<forall>qu. qu \<in> set issued \<longrightarrow> \<not> isl (snd (request (Some qu)))"
  proof -
    have "snd (awaitAll settled ?calls) = Inr (map (\<lambda>x. projr (snd x)) ?calls)"
    proof (rule awaitAll_fulfilled)
      fix x assume "x \<in> set ?calls"
      then obtain qu where "qu \<in> set issued" "x = request (Some qu)" by auto
      with calm show "\<not> isl (snd x)" by simp
    qed
    then show ?thesis
      by (simp add: result [OF big] o_def)
  qed
  have e: "\<exists>qu e. qu \<in> set issued \<and> snd (request (Some qu)) = Inl e
                \<and> fst (paginate ps request settled (Some r) st) = Inl e"
    if big: "100 < T" and thrown: "\<exists>qu. qu \<in> set issued \<and> isl (snd (request (Some qu)))"
  proof -
    from thrown obtain qu where qu: "qu \<in> set issued" "isl (snd (request (Some qu)))" by blast
    then have "request (Some qu) \<in> set ?calls" by simp
    from awaitAll_rejected [OF this qu(2), of settled]
    obtain y e where y: "y \<in> set ?calls" "snd y = Inl e"
      and rej: "snd (awaitAll settled ?calls) = Inl e" by blast
    from y obtain qu' where "qu' \<in> set issued" "snd (request (Some qu')) = Inl e" by auto
    moreover have "fst (paginate ps request settled (Some r) st) = Inl e"
      by (simp add: result [OF big] rej)
    ultimately show ?thesis by blast
  qed
  have f: "map int [2 ..< Suc (min (pageTotal 250) 10)] = [2, 3]"
    by (simp add: pageTotal_def upt_rec)
  have g: "map int [2 ..< Suc (min (pageTotal 950) 10)] = [2, 3, 4, 5, 6, 7, 8, 9, 10]"
    by (simp add: pageTotal_def upt_rec)
  from a b c1 c2 c3 d e f g show ?thesis by blast
qed


text \<open>
  Claim C2 as stated fails when a follow-up call throws: with 250 results and a remote
  service that answers the query for page 2 (\<^verbatim>\<open>start_index\<close> 100) with status 429,
  \<^verbatim>\<open>paginate\<close> returns no sequence but throws the rate-limit error.
\<close>

theorem paginate_rate_limit_counterexample:
  "fst (paginate
         \<lparr>apiKey = Keys [Str ''A'', Str ''B''], individualNameField = Some ''name'',
          dateOfBirthField = None, nonMiddleNameMatch = False, preciseMatch = False\<rparr>
         (requestor
            (\<lambda>qu. if start_index (params qu) = Some 100
                   then (429, \<lparr>total_results = 0, items = []\<rparr>)
                   else (200, \<lparr>total_results = 250, items = []\<rparr>))
            messages)
         (\<lambda>i. i)
         (Some \<lparr>status = 200, rdata = \<lparr>total_results = 250, items = []\<rparr>,
                rurl = ''u'', rauth = \<lparr>username = Str ''A'', password = []\<rparr>,
                rpassthrough = \<lparr>individualName = ''John Smith'', page = 1\<rparr>\<rparr>)
         \<lparr>nxt = Index 1, alerts = [], diagnostics = []\<rparr>)
   = Inl (Error ''The rate limit has been reached'')"
proof -
  have ns: "pageNumbers 250 = [1, 2]"
    by (simp add: pageNumbers_def pageTotal_def slice_def upt_rec)
  show ?thesis
    by (simp add: paginate_def ns apiKeys_def awaitAll_def requestor_def messages_def)
qed

text \<open>
  The amended theorem at a first response with 250 results and the keys A and B, the
  rotator standing at B, against the modelled requestor on a remote service that answers
  every query with status 200, the later page settling first: the result is the response
  followed by the responses for page 2 (key B, from index 100) and page 3 (key A, from
  index 200).
\<close>

theorem paginate_pages_witness:
  "fst (paginate
         \<lparr>apiKey = Keys [Str ''A'', Str ''B''], individualNameField = Some ''name'',
          dateOfBirthField = None, nonMiddleNameMatch = False, preciseMatch = False\<rparr>
         (requestor (\<lambda>qu. (200, \<lparr>total_results = 250, items = []\<rparr>)) messages)
         (\<lambda>i. 9 - i)
         (Some \<lparr>status = 200, rdata = \<lparr>total_results = 250, items = []\<rparr>,
                rurl = ''u'', rauth = \<lparr>username = Str ''A'', password = []\<rparr>,
                rpassthrough = \<lparr>individualName = ''John Smith'', page = 1\<rparr>\<rparr>)
         \<lparr>nxt = Index 1, alerts = [], diagnostics = []\<rparr>)
   = Inr (Some
       [Some \<lparr>status = 200, rdata = \<lparr>total_results = 250, items = []\<rparr>,
              rurl = ''u'', rauth = \<lparr>username = Str ''A'', password = []\<rparr>,
              rpassthrough = \<lparr>individualName = ''John Smith'', page = 1\<rparr>\<rparr>,
        Some \<lparr>status = 200, rdata = \<lparr>total_results = 250, items = []\<rparr>,
              rurl = ''u'', rauth = \<lparr>username = Str ''B'', password = []\<rparr>,
              rpassthrough = \<lparr>individualName = ''John Smith'', page = 2\<rparr>\<rparr>,
        Some \<lparr>status = 200, rdata = \<lparr>total_results = 250, items = []\<rparr>,
              rurl = ''u'', rauth = \<lparr>username = Str ''A'', password = []\<rparr>,
              rpassthrough = \<lparr>individualName = ''John Smith'', page = 3\<rparr>\<rparr>])"
proof -
  let ?ps = "\<lparr>apiKey = Keys [Str ''A'', Str ''B''], individualNameField = Some ''name'',
          dateOfBirthField = None, nonMiddleNameMatch = False, preciseMatch = False\<rparr>"
  let ?rq = "requestor (\<lambda>qu. (200, \<lparr>total_results = 250, items = []\<rparr>)) messages"
  let ?r = "\<lparr>status = 200, rdata = \<lparr>total_results = 250, items = []\<rparr>,
                rurl = ''u'', rauth = \<lparr>username = Str ''A'', password = []\<rparr>,
                rpassthrough = \<lparr>individualName = ''John Smith'', page = 1\<rparr>\<rparr>"
  let ?st = "\<lparr>nxt = Index 1, alerts = [], diagnostics = []\<rparr>"
  have K: "min (pageTotal 250) 10 = 3"
    by (simp add: pageTotal_def)
  have keys: "fst (rotations [Str ''A'', Str ''B''] 2 (Index (Suc 0))) = [Str ''B'', Str ''A'']"
    by (simp add: numeral_2_eq_2)
  have pages: "[2 ..< Suc 3] = [2, 3]"
    by (simp add: upt_rec)
  have calm: "\<not> isl (snd (?rq (Some qu)))" for qu
    by (simp add: requestor_def messages_def)
  from paginate_pages [OF refl refl refl, of ?ps ?rq "\<lambda>i. 9 - i" ?st ?r]
  have "fst (paginate ?ps ?rq (\<lambda>i. 9 - i) (Some ?r) ?st)
      = Inr (Some (Some ?r # map (\<lambda>qu. projr (snd (?rq (Some qu))))
          (map2 (\<lambda>p k. \<lparr>url = rurl ?r,
                    auth = \<lparr>username = k, password = []\<rparr>,
                    params = \<lparr>q = trim (individualName (rpassthrough ?r)), items_per_page = 100,
                              start_index = Some ((p - 1) * 100)\<rparr>,
                    passthrough = \<lparr>individualName = individualName (rpassthrough ?r),
                                   page = p\<rparr>\<rparr>)
              (map int [2 ..< Suc (min (pageTotal (total_results (rdata ?r))) 10)])
              (fst (rotations (apiKeys ?ps)
                 (min (pageTotal (total_results (rdata ?r))) 10 - 1) (nxt ?st))))))"
    using calm by simp
  then show ?thesis
    by (simp add: K keys pages apiKeys_def requestor_def messages_def)
qed

section \<open>Properties of the pipeline\<close>

text \<open>
  Claim C4. For an entry whose individual-name field is blank or absent, and a request
  function that answers an absent query with an absent response and no diagnostic (as
  the requestor does), \<^verbatim>\<open>run\<close> returns \<^verbatim>\<open>undefined\<close>, so no output row, and its only
  effect is one alert of importance error whose message ends with the entry's line
  number: no key is taken from the rotator and no other diagnostic is surfaced.
\<close>

theorem run_missing_name:
  "\<not> truthy_str (property (data en) (individualNameField ps)) \<Longrightarrow>
   request None = ([], Inr None) \<Longrightarrow>
     run ps request settled en st =
       (Inr None,
        st\<lparr>alerts := alerts st @
          [\<lparr>message = ''No individual name found on line '' @ toString (line en),
            importance = ''error''\<rparr>]\<rparr>)"
proof -
  assume blank: "\<not> truthy_str (property (data en) (individualNameField ps))"
    and quiet: "request None = ([], Inr None)"
  let ?st1 = "st\<lparr>alerts := alerts st @
          [\<lparr>message = ''No individual name found on line '' @ toString (line en),
            importance = ''error''\<rparr>]\<rparr>"
  have located: "locate ps en st = (None, ?st1)"
    using blank by (auto simp: locate_def noIndividualName_def truthy_str_def split: option.splits)
  show ?thesis
    by (simp add: run_def located quiet paginate_def)
qed

text \<open>
  The theorem at line 7 with a blank name, against the modelled requestor on a remote
  service that would answer with status 200.
\<close>

theorem run_missing_name_witness:
  "run \<lparr>apiKey = Key (Str ''key''), individualNameField = Some ''name'',
        dateOfBirthField = None, nonMiddleNameMatch = False, preciseMatch = False\<rparr>
     (requestor (\<lambda>qu. (200, \<lparr>total_results = 0, items = []\<rparr>)) messages)
     (\<lambda>i. i)
     \<lparr>data = [''name'' \<mapsto> [], ''town'' \<mapsto> ''Leeds''], line = 7\<rparr>
     \<lparr>nxt = Index 0, alerts = [], diagnostics = []\<rparr>
   = (Inr None,
      \<lparr>nxt = Index 0,
       alerts = [\<lparr>message = ''No individual name found on line 7'', importance = ''error''\<rparr>],
       diagnostics = []\<rparr>)"
proof -
  let ?ps = "\<lparr>apiKey = Key (Str ''key''), individualNameField = Some ''name'',
        dateOfBirthField = None, nonMiddleNameMatch = False, preciseMatch = False\<rparr>"
  let ?rq = "requestor (\<lambda>qu. (200, \<lparr>total_results = 0, items = []\<rparr>)) messages"
  let ?en = "\<lparr>data = [''name'' \<mapsto> [], ''town'' \<mapsto> ''Leeds''], line = 7\<rparr>"
  have blank: "\<not> truthy_str (property (data ?en) (individualNameField ?ps))"
    by (simp add: truthy_str_def property_def)
  have quiet: "?rq None = ([], Inr None)"
    by (simp add: requestor_def)
  have seven: "toString 7 = ''7''"
    by (simp add: toString_def digits.simps)
  from blank quiet
  have "run ?ps ?rq (\<lambda>i. i) ?en \<lparr>nxt = Index 0, alerts = [], diagnostics = []\<rparr>
      = (Inr None,
         \<lparr>nxt = Index 0, alerts = [], diagnostics = []\<rparr>\<lparr>alerts :=
            alerts \<lparr>nxt = Index 0, alerts = [], diagnostics = []\<rparr> @
            [\<lparr>message = ''No individual name found on line '' @ toString (line ?en),
              importance = ''error''\<rparr>]\<rparr>)"
    by (rule run_missing_name)
  then show ?thesis by (simp add: seven)
qed

lemma parse_john_smith:
  assumes name: "individualNameField ps = Some ''individualName''"
    and dob: "dateOfBirthField ps = None"
  shows "parse ps
     (Some \<lparr>status = s,
            rdata = \<lparr>total_results = 1,
                     items = [\<lparr>title = Some ''John Smith'',
                               links = Some \<lparr>self = Some ''/officers/abc123''\<rparr>,
                               date_of_birth = Some \<lparr>year = Some 1980, month = Some 5, day = None\<rparr>,
                               address_snippet = Some ''1 Road''\<rparr>]\<rparr>,
            rurl = u, rauth = a, rpassthrough = p\<rparr>)
     \<lparr>data = [''individualName'' \<mapsto> ''John Smith''], line = 3\<rparr>
   = Inr (Some [[(''officerID'', Str ''abc123''), (''officerName'', Str ''John Smith''),
                 (''officerDateOfBirth'', Str ''1980-5''), (''officerAddress'', Str ''1 Road'')]])"
proof -
  let ?ind = "\<lparr>title = Some ''John Smith'',
                               links = Some \<lparr>self = Some ''/officers/abc123''\<rparr>,
                               date_of_birth = Some \<lparr>year = Some 1980, month = Some 5, day = None\<rparr>,
                               address_snippet = Some ''1 Road''\<rparr>"
  let ?en = "\<lparr>data = [''individualName'' \<mapsto> ''John Smith''], line = 3\<rparr>"
  have y: "toString 1980 = ''1980''" and m: "toString 5 = ''5''"
    by (simp_all add: toString_def digits.simps)
  have f1: "byDateOfBirth ps ?en ?ind"
    by (simp add: byDateOfBirth_def dob truthy_str_def)
  have f2: "byPreciseMatch ps ?en ?ind"
    by (simp add: byPreciseMatch_def name property_def)
  have f3: "byNonMiddleNameMatch ps ?en ?ind = Inr True"
    by (simp add: byNonMiddleNameMatch_def name property_def normalised_def)
  have row: "fields ?ind = Inr [(''officerID'', Str ''abc123''), (''officerName'', Str ''John Smith''),
                 (''officerDateOfBirth'', Str ''1980-5''), (''officerAddress'', Str ''1 Road'')]"
    by (simp add: fields_def opt_def at_def officerDateOfBirth_def component_def y m)
  show ?thesis
    by (simp add: parse_def f1 f2 f3 row)
qed

text \<open>
  Claim C8. With the name column \<open>individualName\<close> and no birth-date column configured
  (whatever the key and the name-filter settings), \<^verbatim>\<open>run\<close> on the entry John Smith of
  line 3, against the modelled requestor on a remote service that answers with status
  200, one result in total and the officer John Smith of the claim, returns exactly one
  row: the officer id abc123, the name, the date of birth 1980-5 and the address.
\<close>

theorem run_john_smith:
  "individualNameField ps = Some ''individualName'' \<Longrightarrow> dateOfBirthField ps = None \<Longrightarrow>
     fst (run ps
       (requestor
          (\<lambda>qu. (200, \<lparr>total_results = 1,
                        items = [\<lparr>title = Some ''John Smith'',
                                  links = Some \<lparr>self = Some ''/officers/abc123''\<rparr>,
                                  date_of_birth =
                                    Some \<lparr>year = Some 1980, month = Some 5, day = None\<rparr>,
                                  address_snippet = Some ''1 Road''\<rparr>]\<rparr>))
          messages)
       settled
       \<lparr>data = [''individualName'' \<mapsto> ''John Smith''], line = 3\<rparr> st)
     = Inr (Some [Some [(''officerID'', Str ''abc123''), (''officerName'', Str ''John Smith''),
                        (''officerDateOfBirth'', Str ''1980-5''),
                        (''officerAddress'', Str ''1 Road'')]])"
proof -
  assume name: "individualNameField ps = Some ''individualName''"
    and dob: "dateOfBirthField ps = None"
  let ?body = "\<lparr>total_results = 1,
                 items = [\<lparr>title = Some ''John Smith'',
                           links = Some \<lparr>self = Some ''/officers/abc123''\<rparr>,
                           date_of_birth = Some \<lparr>year = Some 1980, month = Some 5, day = None\<rparr>,
                           address_snippet = Some ''1 Road''\<rparr>]\<rparr>"
  let ?rq = "requestor (\<lambda>qu. (200, ?body)) messages"
  let ?en = "\<lparr>data = [''individualName'' \<mapsto> ''John Smith''], line = 3\<rparr>"
  obtain k c where key: "apiKeysRotated (apiKeys ps) (nxt st) = (k, c)"
    by (cases "apiKeysRotated (apiKeys ps) (nxt st)")
  obtain qu where located: "locate ps ?en st = (Some qu, st\<lparr>nxt := c\<rparr>)"
    by (simp add: locate_def name property_def key)
  let ?r = "\<lparr>status = 200, rdata = ?body, rurl = url qu, rauth = auth qu,
             rpassthrough = passthrough qu\<rparr>"
  have requested: "?rq (Some qu) = ([], Inr (Some ?r))"
    by (simp add: requestor_def messages_def)
  have paginated: "paginate ps ?rq settled (Some ?r) s = (Inr (Some [Some ?r]), s)" for s
    by (simp add: paginate_def)
  have parsed: "parse ps (Some ?r) ?en
      = Inr (Some [[(''officerID'', Str ''abc123''), (''officerName'', Str ''John Smith''),
                    (''officerDateOfBirth'', Str ''1980-5''),
                    (''officerAddress'', Str ''1 Road'')]])"
    using name dob by (rule parse_john_smith)
  show ?thesis
    by (simp add: run_def located requested paginated parsed)
qed

text \<open>The end-to-end theorem with one key, both name filters switched on, on a fresh instance.\<close>

theorem run_john_smith_witness:
  "fst (run \<lparr>apiKey = Key (Str ''key''), individualNameField = Some ''individualName'',
             dateOfBirthField = None, nonMiddleNameMatch = True, preciseMatch = True\<rparr>
       (requestor
          (\<lambda>qu. (200, \<lparr>total_results = 1,
                        items = [\<lparr>title = Some ''John Smith'',
                                  links = Some \<lparr>self = Some ''/officers/abc123''\<rparr>,
                                  date_of_birth =
                                    Some \<lparr>year = Some 1980, month = Some 5, day = None\<rparr>,
                                  address_snippet = Some ''1 Road''\<rparr>]\<rparr>))
          messages)
       (\<lambda>i. i)
       \<lparr>data = [''individualName'' \<mapsto> ''John Smith''], line = 3\<rparr> initial)
     = Inr (Some [Some [(''officerID'', Str ''abc123''), (''officerName'', Str ''John Smith''),
                        (''officerDateOfBirth'', Str ''1980-5''),
                        (''officerAddress'', Str ''1 Road'')]])"
proof -
  let ?ps = "\<lparr>apiKey = Key (Str ''key''), individualNameField = Some ''individualName'',
             dateOfBirthField = None, nonMiddleNameMatch = True, preciseMatch = True\<rparr>"
  have name: "individualNameField ?ps = Some ''individualName''" by simp
  have dob: "dateOfBirthField ?ps = None" by simp
  from run_john_smith [OF name dob, of "\<lambda>i. i" initial] show ?thesis .
qed

end
